theory Spec2Isabelle
  imports Main
begin

section \<open>Python string primitives\<close>

text \<open>
  Python strings are modelled as \<open>string\<close>, a list of characters with the code points 0
  to 255. On these code points \<open>isalpha\<close>, \<open>isdecimal\<close>, \<open>isdigit\<close>, \<open>isnumeric\<close>,
  \<open>isalnum\<close> and \<open>isspace\<close> are Python's \<open>str\<close> methods of the same names, and
  \<open>isdecimal\<close> is also the class \<open>\d\<close> of a regular expression. \<open>lower\<close> and \<open>upper\<close>
  map the ASCII letters; on the other code points Python's \<open>str.lower()\<close> gives no ASCII
  character and \<open>str.upper()\<close> none but the \<open>SS\<close> of the sharp s, so every comparison
  the code makes with its patterns (\<open>routes_\<close>, \<open>dsk4\<close>, \<open>dayofopsplan\<close>, \<open>.xlsx\<close>,
  \<open>LOADED\<close>, \<open>LOAD_FAILED\<close>, \<open>PARTIALLY_LOADED\<close>) comes out as in Python.
\<close>

definition ascii_upper :: string where
  "ascii_upper = ''ABCDEFGHIJKLMNOPQRSTUVWXYZ''"

definition ascii_lower :: string where
  "ascii_lower = ''abcdefghijklmnopqrstuvwxyz''"

definition code_point :: "char \<Rightarrow> nat" where
  "code_point c = of_char c"

definition between :: "nat \<Rightarrow> nat \<Rightarrow> char \<Rightarrow> bool" where
  "between lo hi c \<longleftrightarrow> lo \<le> code_point c \<and> code_point c \<le> hi"

text \<open>The decimal digits 0 to 9; \<open>str.isdigit()\<close> adds the superscripts two, three and
  one, \<open>str.isnumeric()\<close> the fractions one quarter, one half and three quarters.\<close>

definition isdecimal :: "char \<Rightarrow> bool" where
  "isdecimal c \<longleftrightarrow> c \<in> set ''0123456789''"

definition isdigit :: "char \<Rightarrow> bool" where
  "isdigit c \<longleftrightarrow> isdecimal c \<or> code_point c \<in> {0xB2, 0xB3, 0xB9}"

definition isnumeric :: "char \<Rightarrow> bool" where
  "isnumeric c \<longleftrightarrow> isdigit c \<or> between 0xBC 0xBE c"

text \<open>The letters: A to Z, a to z, the two ordinal indicators (0xAA, 0xBA), the micro
  sign (0xB5), and the accented letters 0xC0 to 0xFF without the multiplication sign
  (0xD7) and the division sign (0xF7).\<close>

definition isalpha :: "char \<Rightarrow> bool" where
  "isalpha c \<longleftrightarrow>
     c \<in> set ascii_upper \<or> c \<in> set ascii_lower \<or> code_point c \<in> {0xAA, 0xB5, 0xBA} \<or>
     between 0xC0 0xD6 c \<or> between 0xD8 0xF6 c \<or> between 0xF8 0xFF c"

definition isalnum :: "char \<Rightarrow> bool" where
  "isalnum c \<longleftrightarrow> isalpha c \<or> isdecimal c \<or> isdigit c \<or> isnumeric c"

text \<open>White space as \<open>str.isspace()\<close> and \<open>str.strip()\<close> see it: tab, line feed, vertical
  tab, form feed, carriage return, the four separators 0x1C to 0x1F, the space, the next
  line control (0x85) and the no-break space (0xA0).\<close>

definition isspace :: "char \<Rightarrow> bool" where
  "isspace c \<longleftrightarrow>
     c \<in> {CHR 0x09, CHR 0x0A, CHR 0x0B, CHR 0x0C, CHR 0x0D,
          CHR 0x1C, CHR 0x1D, CHR 0x1E, CHR 0x1F, CHR '' '', CHR 0x85, CHR 0xA0}"

definition lower_char :: "char \<Rightarrow> char" where
  "lower_char c = (case map_of (zip ascii_upper ascii_lower) c of Some d \<Rightarrow> d | None \<Rightarrow> c)"

definition upper_char :: "char \<Rightarrow> char" where
  "upper_char c = (case map_of (zip ascii_lower ascii_upper) c of Some d \<Rightarrow> d | None \<Rightarrow> c)"

definition lower :: "string \<Rightarrow> string" where
  "lower s = map lower_char s"

definition upper :: "string \<Rightarrow> string" where
  "upper s = map upper_char s"

text \<open>\<open>s.startswith(p)\<close>, \<open>s.endswith(p)\<close> and \<open>p in s\<close>.\<close>

definition startswith :: "string \<Rightarrow> string \<Rightarrow> bool" where
  "startswith s p \<longleftrightarrow> take (length p) s = p"

definition endswith :: "string \<Rightarrow> string \<Rightarrow> bool" where
  "endswith s p \<longleftrightarrow> drop (length s - length p) s = p"

fun contains :: "string \<Rightarrow> string \<Rightarrow> bool" where
  "contains [] p = (p = [])"
| "contains (c # cs) p = (startswith (c # cs) p \<or> contains cs p)"

text \<open>\<open>s.strip()\<close> and \<open>s.rstrip(ch)\<close> for a single character \<open>ch\<close>.\<close>

definition rstrip_space :: "string \<Rightarrow> string" where
  "rstrip_space s = rev (dropWhile isspace (rev s))"

definition strip :: "string \<Rightarrow> string" where
  "strip s = rstrip_space (dropWhile isspace s)"

definition rstrip :: "string \<Rightarrow> char \<Rightarrow> string" where
  "rstrip s ch = rev (dropWhile (\<lambda>c. c = ch) (rev s))"

text \<open>\<open>os.path.basename\<close> on a POSIX host: what follows the last slash.
  \<open>s.split("/", 1)[1]\<close>, for a string with a slash: what follows the first slash.\<close>

definition basename :: "string \<Rightarrow> string" where
  "basename p = rev (takeWhile (\<lambda>c. c \<noteq> CHR ''/'') (rev p))"

definition after_first_slash :: "string \<Rightarrow> string" where
  "after_first_slash s = drop 1 (dropWhile (\<lambda>c. c \<noteq> CHR ''/'') s)"

text \<open>\<open>str(n)\<close> and the format \<open>{n:02d}\<close> for a natural number, and \<open>int(s)\<close> for a
  string of digits.\<close>

fun str_nat :: "nat \<Rightarrow> string" where
  "str_nat n =
     (if n < 10 then [''0123456789'' ! n]
      else str_nat (n div 10) @ [''0123456789'' ! (n mod 10)])"

declare str_nat.simps [simp del]

definition fmt_02d :: "nat \<Rightarrow> string" where
  "fmt_02d n = (if n < 10 then CHR ''0'' # str_nat n else str_nat n)"

definition digit_val :: "char \<Rightarrow> nat" where
  "digit_val c =
     (case map_of (zip ''0123456789'' [0, 1, 2, 3, 4, 5, 6, 7, 8, 9]) c of
        Some d \<Rightarrow> d
      | None \<Rightarrow> 0)"

definition int_of_digits :: "string \<Rightarrow> nat" where
  "int_of_digits s = foldl (\<lambda>n c. 10 * n + digit_val c) 0 s"


section \<open>The spreadsheet splitter: helpers\<close>

subsection \<open>\<open>_safe\<close>\<close>

definition safe :: "string \<Rightarrow> string" where
  "safe name =
     map (\<lambda>c. if isalnum c \<or> c \<in> {CHR ''-'', CHR ''_''} then c else CHR ''_'') name"

subsection \<open>\<open>_determine_file_type\<close>\<close>

definition determine_file_type :: "string \<Rightarrow> string \<times> string option" where
  "determine_file_type filename =
     (let filename_lower = lower filename in
      if startswith filename_lower ''routes_'' \<and> contains filename_lower ''dsk4''
      then (''driver_routes'', Some ''Routes'')
      else if contains filename_lower ''dayofopsplan''
      then (''dsp_summary'', None)
      else (''dsp_summary'', None))"

subsection \<open>\<open>_extract_year_month\<close>\<close>

text \<open>
  \<open>re.search(r"(\d{4})-(\d{2})-(\d{2})", stem)\<close>: the pattern has a fixed length of ten
  characters, so the search returns the leftmost position at which the next ten
  characters have the shape, with the three groups cut out of them.
\<close>

definition date_shape :: "string \<Rightarrow> bool" where
  "date_shape t \<longleftrightarrow>
     length t = 10 \<and> list_all isdecimal (take 4 t) \<and> t ! 4 = CHR ''-'' \<and>
     list_all isdecimal (take 2 (drop 5 t)) \<and> t ! 7 = CHR ''-'' \<and>
     list_all isdecimal (drop 8 t)"

fun re_search_date :: "string \<Rightarrow> (string \<times> string \<times> string) option" where
  "re_search_date [] = None"
| "re_search_date (c # cs) =
     (if date_shape (take 10 (c # cs))
      then Some (take 4 (c # cs), take 2 (drop 5 (c # cs)), take 2 (drop 8 (c # cs)))
      else re_search_date cs)"

text \<open>
  \<open>datetime.strptime(f"{year}-{month}-01", "%Y-%m-%d")\<close> on four digits, a hyphen, two
  digits and the constant day \<open>01\<close>: it returns when the year is between 1 and 9999 and
  the month between 1 and 12, and raises ValueError otherwise.
\<close>

definition strptime_first_of_month :: "string \<Rightarrow> string \<Rightarrow> bool" where
  "strptime_first_of_month year month \<longleftrightarrow>
     1 \<le> int_of_digits year \<and> int_of_digits year \<le> 9999 \<and>
     1 \<le> int_of_digits month \<and> int_of_digits month \<le> 12"

text \<open>\<open>datetime.utcnow()\<close>, as far as the splitter reads it.\<close>

record utc_date =
  now_year :: nat
  now_month :: nat

definition extract_year_month :: "utc_date \<Rightarrow> string \<Rightarrow> string \<times> string" where
  "extract_year_month now stem =
     (case re_search_date stem of
        Some (year, month, day) \<Rightarrow>
          if strptime_first_of_month year month then (year, month)
          else (str_nat (now_year now), fmt_02d (now_month now))
      | None \<Rightarrow> (str_nat (now_year now), fmt_02d (now_month now)))"


subsection \<open>\<open>_get_blob_service_client\<close>\<close>

text \<open>
  The exceptions of the three programs. Splitter: RuntimeError for a storage connection
  that is not configured, and a workbook that cannot be read. Dispatcher: the two
  ValueErrors of the configuration check, an event whose data cannot be read, the
  exception for a reply other than 204, and the two transport exceptions. Gate: KeyError
  for a missing environment variable, a failed connection, a failed query.
\<close>

datatype error =
    StorageNotConfigured
  | WorkbookUnreadable
  | ConfigurationIncomplete
  | PatNotConfigured
  | EventUnparsable
  | DispatchFailed nat
  | RequestTimeout
  | RequestFailed
  | MissingEnvironment string
  | ConnectFailed
  | QueryFailed

text \<open>
  The world of one splitter invocation. The two application settings are what
  \<open>os.getenv\<close> returns (\<open>None\<close> when unset). \<open>workbook_sheets\<close> is
  \<open>xls.sheet_names\<close> of the uploaded workbook, \<open>None\<close> when reading or parsing it
  raises, and \<open>sheet_csv\<close> the CSV text pandas makes of a sheet. Clock readings are in
  milliseconds: \<open>clock\<close> is \<open>time.time()\<close> when the archive wait starts,
  \<open>copy_status k\<close> the copy status the \<open>k\<close>-th \<open>get_blob_properties\<close> call reports
  (\<open>None\<close> when the blob has no copy properties or no status), and \<open>poll_lag k\<close> the
  time the \<open>k\<close>-th call and its \<open>time.sleep(1)\<close> take beyond the second slept.
\<close>

record splitter_env =
  EPL_STORAGE_serviceUri :: "string option"
  EPL_STORAGE :: "string option"
  utcnow :: utc_date
  workbook_sheets :: "string list option"
  sheet_csv :: "string \<Rightarrow> string"
  clock :: int
  copy_status :: "nat \<Rightarrow> string option"
  poll_lag :: "nat \<Rightarrow> nat"

text \<open>Python's truth value of an optional string: neither \<open>None\<close> nor empty.\<close>

definition truthy :: "string option \<Rightarrow> bool" where
  "truthy v \<longleftrightarrow> (case v of None \<Rightarrow> False | Some s \<Rightarrow> s \<noteq> [])"

definition get_blob_service_client :: "splitter_env \<Rightarrow> error + unit" where
  "get_blob_service_client env =
     (if truthy (EPL_STORAGE_serviceUri env) then Inr ()
      else if truthy (EPL_STORAGE env) then Inr ()
      else Inl StorageNotConfigured)"

subsection \<open>\<open>_wait_for_copy_success\<close>\<close>

text \<open>
  The loop state is the number \<open>k\<close> of polls made and the clock reading \<open>now\<close>. The
  result is the returned flag with the number of polls made. Each round that does not
  return takes at least the second slept, so the loop ends.
\<close>

function wait_loop :: "splitter_env \<Rightarrow> int \<Rightarrow> nat \<Rightarrow> int \<Rightarrow> bool \<times> nat" where
  "wait_loop env deadline k now =
     (if now < deadline then
        (if copy_status env k = Some ''success'' then (True, Suc k)
         else if copy_status env k \<in> {Some ''aborted'', Some ''failed''} then (False, Suc k)
         else wait_loop env deadline (Suc k) (now + 1000 + int (poll_lag env k)))
      else (False, k))"
  by pat_completeness auto
termination
  by (relation "measure (\<lambda>(env, deadline, k, now). nat (deadline - now))") auto

declare wait_loop.simps [simp del]

definition wait_for_copy_success :: "splitter_env \<Rightarrow> int \<Rightarrow> bool \<times> nat" where
  "wait_for_copy_success env timeout_s =
     wait_loop env (clock env + 1000 * timeout_s) 0 (clock env)"


section \<open>The spreadsheet splitter: \<open>split_excel\<close>\<close>

text \<open>
  What an invocation does to the storage account, in order: reading the input blob,
  uploading a CSV (name, data, the sheet in its metadata), starting the server-side
  copy (source, destination), polling the destination's properties, deleting a blob.
  The calls that write to the storage account are taken to return; the copy id is left
  out, since \<open>_wait_for_copy_success\<close> does not read it.
\<close>

datatype storage_event =
    ReadInput
  | UploadBlob string string string
  | StartCopy string string
  | GetBlobProperties string
  | DeleteBlob string

record run =
  outcome :: "error + unit"
  effects :: "storage_event list"

definition returned :: "storage_event list \<Rightarrow> run" where
  "returned evs = \<lparr>outcome = Inr (), effects = evs\<rparr>"

definition raised :: "error \<Rightarrow> storage_event list \<Rightarrow> run" where
  "raised e evs = \<lparr>outcome = Inl e, effects = evs\<rparr>"

definition ACCEPTED_SHEETS :: "string set option" where
  "ACCEPTED_SHEETS = None"

text \<open>The sheets to export, or \<open>None\<close> where the function returns with a warning.\<close>

definition select_sheets :: "string option \<Rightarrow> string list \<Rightarrow> string list option" where
  "select_sheets target_sheet sheet_names =
     (if truthy target_sheet then
        (if the target_sheet \<in> set sheet_names then Some [the target_sheet] else None)
      else
        (let names = (case ACCEPTED_SHEETS of
                        None \<Rightarrow> sheet_names
                      | Some acc \<Rightarrow> filter (\<lambda>s. s \<in> acc) sheet_names)
         in if names = [] then None else Some names))"

text \<open>
  The body of \<open>split_excel\<close> from \<open>stem = filename[:-5]\<close> on, for a blob that passed the
  filters: \<open>blob_name\<close> is the blob's name in the container and \<open>filename\<close> the trimmed
  file name.
\<close>

definition process_file :: "splitter_env \<Rightarrow> string \<Rightarrow> string \<Rightarrow> run" where
  "process_file env blob_name filename =
     (let stem = take (length filename - 5) filename;
          (year, month) = extract_year_month (utcnow env) stem;
          (file_type, target_sheet) = determine_file_type filename
      in case get_blob_service_client env of
           Inl e \<Rightarrow> raised e []
         | Inr _ \<Rightarrow>
            (case workbook_sheets env of
               None \<Rightarrow> raised WorkbookUnreadable [ReadInput]
             | Some sheet_names \<Rightarrow>
                (case select_sheets target_sheet sheet_names of
                   None \<Rightarrow> returned [ReadInput]
                 | Some sheets \<Rightarrow>
                    (let out_prefix = file_type @ ''/'' @ year @ ''/'' @ month @ ''/'';
                         archive_prefix =
                           ''_archive/'' @ file_type @ ''/'' @ year @ ''/'' @ month @ ''/'';
                         uploads =
                           map (\<lambda>sheet.
                                  UploadBlob (out_prefix @ stem @ ''__'' @ safe sheet @ ''.csv'')
                                    (sheet_csv env sheet) sheet)
                               sheets;
                         archive_blob_name = archive_prefix @ filename;
                         (ok, polls) = wait_for_copy_success env 60
                     in returned
                          ([ReadInput] @ uploads @ [StartCopy blob_name archive_blob_name] @
                           replicate polls (GetBlobProperties archive_blob_name) @
                           (if ok then [DeleteBlob blob_name] else []))))))"

definition blob_name_of :: "string \<Rightarrow> string" where
  "blob_name_of full_path =
     (if CHR ''/'' \<in> set full_path then after_first_slash full_path else full_path)"

definition filename_of :: "string \<Rightarrow> string" where
  "filename_of full_path = rstrip (rstrip (strip (basename full_path)) (CHR 0x27)) (CHR 0x22)"

definition split_excel :: "splitter_env \<Rightarrow> string \<Rightarrow> run" where
  "split_excel env full_path =
     (let blob_name = blob_name_of full_path in
      if startswith blob_name ''_archive/'' \<or> startswith blob_name ''dsp_summary/''
      then returned []
      else
        (let filename = filename_of full_path in
         if startswith filename ''~$'' \<or> \<not> endswith (lower filename) ''.xlsx''
         then returned []
         else process_file env blob_name filename))"


section \<open>The workflow dispatcher\<close>

text \<open>
  \<open>get_config\<close> reads five settings with \<open>os.environ.get(name, "")\<close>, so each is a
  string, empty when unset.
\<close>

record dispatcher_config =
  GITHUB_OWNER :: string
  GITHUB_REPO :: string
  GITHUB_PAT :: string
  PATH_BEGINS :: string
  PATH_ENDS :: string

text \<open>
  The notification: \<open>get_json()\<close> raises or returns the data object (a dictionary, or
  nothing), \<open>event_time\<close> is given as its ISO text when present.
\<close>

datatype event_json = JsonRaises | JsonData "(string \<rightharpoonup> string) option"

record event_grid_event =
  get_json :: event_json
  subject :: string
  event_type :: string
  event_time :: "string option"

record dispatch_request =
  github_url :: string
  authorization :: string
  payload_event_type :: string
  payload_blob_url :: string
  payload_file_name :: string
  payload_event_time :: string

datatype http_reply = StatusCode nat | TimedOut | TransportError

record dispatch_run =
  dispatch_outcome :: "error + unit"
  http_calls :: "dispatch_request list"

text \<open>\<open>s.split("/")[-1]\<close>: what follows the last slash.\<close>

definition last_segment :: "string \<Rightarrow> string" where
  "last_segment s = rev (takeWhile (\<lambda>c. c \<noteq> CHR ''/'') (rev s))"

text \<open>
  \<open>post\<close> is what \<open>requests.post\<close> does with a request, \<open>utcnow_iso\<close> the text of
  \<open>datetime.utcnow().isoformat()\<close>. For the data object, \<open>event_data.get("url", "")\<close>
  of an empty dictionary is the empty string that the \<open>else\<close> branch gives as well.
\<close>

definition OnBlobCreatedDispatchToGitHub ::
  "dispatcher_config \<Rightarrow> (dispatch_request \<Rightarrow> http_reply) \<Rightarrow> string \<Rightarrow> event_grid_event
   \<Rightarrow> dispatch_run" where
  "OnBlobCreatedDispatchToGitHub config post utcnow_iso azeventgrid =
     (if GITHUB_OWNER config = [] \<or> GITHUB_REPO config = []
      then \<lparr>dispatch_outcome = Inl ConfigurationIncomplete, http_calls = []\<rparr>
      else if GITHUB_PAT config = []
      then \<lparr>dispatch_outcome = Inl PatNotConfigured, http_calls = []\<rparr>
      else
        (case get_json azeventgrid of
           JsonRaises \<Rightarrow> \<lparr>dispatch_outcome = Inl EventUnparsable, http_calls = []\<rparr>
         | JsonData event_data \<Rightarrow>
            (let blob_url =
                   (case event_data of
                      None \<Rightarrow> []
                    | Some d \<Rightarrow> (case d ''url'' of None \<Rightarrow> [] | Some u \<Rightarrow> u))
             in
             if PATH_BEGINS config \<noteq> [] \<and>
                \<not> startswith (subject azeventgrid) (PATH_BEGINS config)
             then \<lparr>dispatch_outcome = Inr (), http_calls = []\<rparr>
             else if PATH_ENDS config \<noteq> [] \<and>
                \<not> endswith (subject azeventgrid) (PATH_ENDS config)
             then \<lparr>dispatch_outcome = Inr (), http_calls = []\<rparr>
             else
               (let file_name =
                      (if blob_url \<noteq> [] then last_segment blob_url
                       else last_segment (subject azeventgrid));
                    request =
                      \<lparr>github_url =
                         ''https://api.github.com/repos/'' @ GITHUB_OWNER config @ ''/'' @
                         GITHUB_REPO config @ ''/dispatches'',
                       authorization = ''token '' @ GITHUB_PAT config,
                       payload_event_type = ''blob-created'',
                       payload_blob_url = blob_url,
                       payload_file_name = file_name,
                       payload_event_time =
                         (case event_time azeventgrid of
                            Some t \<Rightarrow> t
                          | None \<Rightarrow> utcnow_iso)\<rparr>
                in case post request of
                     StatusCode code \<Rightarrow>
                       if code = 204
                       then \<lparr>dispatch_outcome = Inr (), http_calls = [request]\<rparr>
                       else \<lparr>dispatch_outcome = Inl (DispatchFailed code),
                             http_calls = [request]\<rparr>
                   | TimedOut \<Rightarrow>
                       \<lparr>dispatch_outcome = Inl RequestTimeout, http_calls = [request]\<rparr>
                   | TransportError \<Rightarrow>
                       \<lparr>dispatch_outcome = Inl RequestFailed, http_calls = [request]\<rparr>))))"


section \<open>The load-completion gate\<close>

text \<open>
  A row of the copy history as the query selects it; the status column may be null.
\<close>

record copy_history_row =
  file_name :: string
  status :: "string option"
  row_count :: "int option"
  last_load_time :: string

text \<open>
  The world of one gate run. The four settings are what \<open>os.environ\<close> holds (\<open>None\<close>
  when unset, and then the subscript raises KeyError); \<open>connect_ok\<close> tells whether
  \<open>snowflake.connector.connect\<close> returns. \<open>fetchone k\<close> is what the \<open>k\<close>-th query gives:
  an exception, no row, or the most recent matching row. Clock readings are in
  milliseconds: \<open>start_time\<close> is \<open>time.time()\<close> before the loop, and \<open>query_lag k\<close> the
  time that the \<open>k\<close>-th query and its \<open>time.sleep(10)\<close> take beyond the ten seconds
  slept.
\<close>

record gate_env =
  SNOWFLAKE_ACCOUNT :: "string option"
  SNOWFLAKE_USER :: "string option"
  SNOWFLAKE_ROLE :: "string option"
  SNOWFLAKE_WAREHOUSE :: "string option"
  connect_ok :: bool
  fetchone :: "nat \<Rightarrow> error + copy_history_row option"
  start_time :: int
  query_lag :: "nat \<Rightarrow> nat"

record gate_args =
  arg_table :: string
  arg_file :: string
  arg_timeout :: int
  arg_lookback_hours :: int

text \<open>The exit code, or the exception that ends the process, and the queries made.\<close>

record gate_run =
  exit_code :: "error + int"
  queries :: nat

definition connect :: "gate_env \<Rightarrow> error + unit" where
  "connect env =
     (if SNOWFLAKE_ACCOUNT env = None then Inl (MissingEnvironment ''SNOWFLAKE_ACCOUNT'')
      else if SNOWFLAKE_USER env = None then Inl (MissingEnvironment ''SNOWFLAKE_USER'')
      else if SNOWFLAKE_ROLE env = None then Inl (MissingEnvironment ''SNOWFLAKE_ROLE'')
      else if SNOWFLAKE_WAREHOUSE env = None
      then Inl (MissingEnvironment ''SNOWFLAKE_WAREHOUSE'')
      else if connect_ok env then Inr () else Inl ConnectFailed)"

text \<open>
  The polling loop: \<open>k\<close> queries were made and the clock reads \<open>now\<close>. Each round that
  does not return takes at least the ten seconds slept, so the loop ends. The SQL text,
  built from the table, the file's last path segment and the lookback, is part of what
  \<open>fetchone\<close> stands for; the messages printed and the closing of the connection are
  left out.
\<close>

function gate_loop :: "gate_env \<Rightarrow> int \<Rightarrow> nat \<Rightarrow> int \<Rightarrow> gate_run" where
  "gate_loop env timeout k now =
     (if now - start_time env < 1000 * timeout then
        (case fetchone env k of
           Inl e \<Rightarrow> \<lparr>exit_code = Inl e, queries = Suc k\<rparr>
         | Inr None \<Rightarrow> gate_loop env timeout (Suc k) (now + 10000 + int (query_lag env k))
         | Inr (Some row) \<Rightarrow>
            (if upper (case status row of None \<Rightarrow> [] | Some s \<Rightarrow> s) = ''LOADED''
             then \<lparr>exit_code = Inr 0, queries = Suc k\<rparr>
             else if upper (case status row of None \<Rightarrow> [] | Some s \<Rightarrow> s)
                     \<in> {''LOAD_FAILED'', ''PARTIALLY_LOADED''}
             then \<lparr>exit_code = Inr 2, queries = Suc k\<rparr>
             else gate_loop env timeout (Suc k) (now + 10000 + int (query_lag env k))))
      else \<lparr>exit_code = Inr 3, queries = k\<rparr>)"
  by pat_completeness auto
termination
  by (relation "measure (\<lambda>(env, timeout, k, now). nat (start_time env + 1000 * timeout - now))")
    auto

declare gate_loop.simps [simp del]

definition main :: "gate_env \<Rightarrow> gate_args \<Rightarrow> gate_run" where
  "main env args =
     (case connect env of
        Inl e \<Rightarrow> \<lparr>exit_code = Inl e, queries = 0\<rparr>
      | Inr _ \<Rightarrow> gate_loop env (arg_timeout args) 0 (start_time env))"


section \<open>Notions the properties are stated with\<close>

text \<open>The clock reading at the \<open>k\<close>-th test of the wait loop's condition.\<close>

primrec poll_time :: "splitter_env \<Rightarrow> nat \<Rightarrow> int" where
  "poll_time env 0 = clock env"
| "poll_time env (Suc k) = poll_time env k + 1000 + int (poll_lag env k)"

text \<open>
  A calendar date as \<open>datetime\<close> accepts it: the proleptic Gregorian calendar with
  years 1 to 9999.
\<close>

definition is_leap :: "nat \<Rightarrow> bool" where
  "is_leap y \<longleftrightarrow> y mod 4 = 0 \<and> (y mod 100 \<noteq> 0 \<or> y mod 400 = 0)"

definition days_in_month :: "nat \<Rightarrow> nat \<Rightarrow> nat" where
  "days_in_month y m =
     (if m = 2 then (if is_leap y then 29 else 28)
      else if m \<in> {4, 6, 9, 11} then 30 else 31)"

definition valid_calendar_date :: "nat \<Rightarrow> nat \<Rightarrow> nat \<Rightarrow> bool" where
  "valid_calendar_date y m d \<longleftrightarrow>
     1 \<le> y \<and> y \<le> 9999 \<and> 1 \<le> m \<and> m \<le> 12 \<and> 1 \<le> d \<and> d \<le> days_in_month y m"

text \<open>
  \<open>first_date_at stem a t b\<close>: the stem is \<open>a\<close>, then \<open>t\<close>, then \<open>b\<close>, where \<open>t\<close> has
  the shape YYYY-MM-DD and no substring of that shape starts further left.
\<close>

definition first_date_at :: "string \<Rightarrow> string \<Rightarrow> string \<Rightarrow> string \<Rightarrow> bool" where
  "first_date_at stem a t b \<longleftrightarrow>
     stem = a @ t @ b \<and> date_shape t \<and>
     (\<forall>a' t' b'. stem = a' @ t' @ b' \<and> date_shape t' \<longrightarrow> length a \<le> length a')"

text \<open>A copy status that ends the archive wait.\<close>

definition terminal :: "string option \<Rightarrow> bool" where
  "terminal st \<longleftrightarrow> st \<in> {Some ''success'', Some ''aborted'', Some ''failed''}"

text \<open>
  For the dispatcher: a configured (non-empty) path filter that the subject fails.
\<close>

definition filter_mismatch :: "dispatcher_config \<Rightarrow> string \<Rightarrow> bool" where
  "filter_mismatch config subj \<longleftrightarrow>
     (PATH_BEGINS config \<noteq> [] \<and> \<not> startswith subj (PATH_BEGINS config)) \<or>
     (PATH_ENDS config \<noteq> [] \<and> \<not> endswith subj (PATH_ENDS config))"

text \<open>
  For the gate: the clock reading at the \<open>k\<close>-th test of the loop condition when no
  earlier round returned, whether that reading is within the timeout, and whether the
  \<open>k\<close>-th query leaves the gate polling (no row, or a row whose status is none of the
  three terminal ones).
\<close>

primrec gate_time :: "gate_env \<Rightarrow> nat \<Rightarrow> int" where
  "gate_time env 0 = start_time env"
| "gate_time env (Suc k) = gate_time env k + 10000 + int (query_lag env k)"

definition in_time :: "gate_env \<Rightarrow> int \<Rightarrow> nat \<Rightarrow> bool" where
  "in_time env timeout k \<longleftrightarrow> gate_time env k - start_time env < 1000 * timeout"

definition pending :: "gate_env \<Rightarrow> nat \<Rightarrow> bool" where
  "pending env k \<longleftrightarrow>
     (case fetchone env k of
        Inl e \<Rightarrow> False
      | Inr None \<Rightarrow> True
      | Inr (Some row) \<Rightarrow>
          upper (case status row of None \<Rightarrow> [] | Some s \<Rightarrow> s)
            \<notin> {''LOADED'', ''LOAD_FAILED'', ''PARTIALLY_LOADED''})"


section \<open>Example worlds\<close>

text \<open>
  Four splitter worlds: the copy succeeds at the second poll; it fails at the second
  poll; it never reports a status while each round takes thirty seconds; and a
  routes workbook whose copy succeeds at once.
\<close>

definition env_success :: splitter_env where
  "env_success =
     \<lparr>EPL_STORAGE_serviceUri = Some ''https://epldatastore01.blob.core.windows.net'',
      EPL_STORAGE = None,
      utcnow = \<lparr>now_year = 2026, now_month = 11\<rparr>,
      workbook_sheets = Some [''Solution'', ''Notes''],
      sheet_csv = (\<lambda>s. ''a,b''),
      clock = 0,
      copy_status = (\<lambda>k. if k = 0 then Some ''pending'' else Some ''success''),
      poll_lag = (\<lambda>k. 20)\<rparr>"

definition env_failed :: splitter_env where
  "env_failed =
     \<lparr>EPL_STORAGE_serviceUri = Some ''https://epldatastore01.blob.core.windows.net'',
      EPL_STORAGE = None,
      utcnow = \<lparr>now_year = 2026, now_month = 11\<rparr>,
      workbook_sheets = Some [''Solution'', ''Notes''],
      sheet_csv = (\<lambda>s. ''a,b''),
      clock = 0,
      copy_status = (\<lambda>k. if k = 0 then Some ''pending'' else Some ''failed''),
      poll_lag = (\<lambda>k. 20)\<rparr>"

definition env_never :: splitter_env where
  "env_never =
     \<lparr>EPL_STORAGE_serviceUri = Some ''https://epldatastore01.blob.core.windows.net'',
      EPL_STORAGE = None,
      utcnow = \<lparr>now_year = 2026, now_month = 11\<rparr>,
      workbook_sheets = Some [''Solution'', ''Notes''],
      sheet_csv = (\<lambda>s. ''a,b''),
      clock = 0,
      copy_status = (\<lambda>k. None),
      poll_lag = (\<lambda>k. 29000)\<rparr>"

definition env_routes :: splitter_env where
  "env_routes =
     \<lparr>EPL_STORAGE_serviceUri = None,
      EPL_STORAGE = Some ''DefaultEndpointsProtocol=https;AccountName=epldatastore01'',
      utcnow = \<lparr>now_year = 2026, now_month = 11\<rparr>,
      workbook_sheets = Some [''Routes'', ''Summary''],
      sheet_csv = (\<lambda>s. ''driver,stops''),
      clock = 1000,
      copy_status = (\<lambda>k. Some ''success''),
      poll_lag = (\<lambda>k. 0)\<rparr>"

text \<open>Dispatcher settings without an owner, and complete ones with both filters; two
  notifications, and a GitHub that accepts every dispatch.\<close>

definition config_no_owner :: dispatcher_config where
  "config_no_owner =
     \<lparr>GITHUB_OWNER = [], GITHUB_REPO = ''epl_analytics_project'',
      GITHUB_PAT = ''ghp_token'', PATH_BEGINS = [], PATH_ENDS = ''__Solution.csv''\<rparr>"

definition config_filtered :: dispatcher_config where
  "config_filtered =
     \<lparr>GITHUB_OWNER = ''dataepl'', GITHUB_REPO = ''epl_analytics_project'',
      GITHUB_PAT = ''ghp_token'',
      PATH_BEGINS = ''/blobServices/default/containers/ingestion/blobs/dsp_summary/'',
      PATH_ENDS = ''__Solution.csv''\<rparr>"

definition notes_event :: event_grid_event where
  "notes_event =
     \<lparr>get_json = JsonData (Some [''url'' \<mapsto>
        ''https://epldatastore01.blob.core.windows.net/ingestion/dsp_summary/2025/02/plan__Notes.csv'']),
      subject =
        ''/blobServices/default/containers/ingestion/blobs/dsp_summary/2025/02/plan__Notes.csv'',
      event_type = ''Microsoft.Storage.BlobCreated'',
      event_time = Some ''2025-02-10T06:00:00''\<rparr>"

definition routes_event :: event_grid_event where
  "routes_event =
     \<lparr>get_json = JsonData None,
      subject =
        ''/blobServices/default/containers/ingestion/blobs/driver_routes/2025/09/r__Solution.csv'',
      event_type = ''Microsoft.Storage.BlobCreated'',
      event_time = None\<rparr>"

definition accepting_github :: "dispatch_request \<Rightarrow> http_reply" where
  "accepting_github request = StatusCode 204"

text \<open>Gate worlds: a connected warehouse whose queries answer as the given function
  says, each round taking 150 ms beyond the ten seconds slept.\<close>

definition row_with :: "string option \<Rightarrow> copy_history_row" where
  "row_with st =
     \<lparr>file_name = ''dsp_summary/2025/02/2025-02-10-DSK4__Solution.csv'',
      status = st, row_count = Some 120, last_load_time = ''2025-02-10 06:00:00''\<rparr>"

definition gate_env_of :: "(nat \<Rightarrow> error + copy_history_row option) \<Rightarrow> gate_env" where
  "gate_env_of f =
     \<lparr>SNOWFLAKE_ACCOUNT = Some ''acct'', SNOWFLAKE_USER = Some ''ci'',
      SNOWFLAKE_ROLE = Some ''LOADER'', SNOWFLAKE_WAREHOUSE = Some ''WH'', connect_ok = True,
      fetchone = f, start_time = 5000, query_lag = (\<lambda>k. 150)\<rparr>"

definition gate_args_of :: "int \<Rightarrow> gate_args" where
  "gate_args_of t =
     \<lparr>arg_table = ''RAW.SOLUTION_BASE'',
      arg_file = ''dsp_summary/2025/02/2025-02-10-DSK4__Solution.csv'',
      arg_timeout = t, arg_lookback_hours = 24\<rparr>"

definition polls_loaded :: "nat \<Rightarrow> error + copy_history_row option" where
  "polls_loaded k =
     (if k = 0 then Inr None
      else if k = 1 then Inr (Some (row_with (Some ''LOADING'')))
      else Inr (Some (row_with (Some ''LOADED''))))"

definition polls_failed :: "nat \<Rightarrow> error + copy_history_row option" where
  "polls_failed k =
     (if k = 0 then Inr (Some (row_with (Some ''LOADING'')))
      else Inr (Some (row_with (Some ''PARTIALLY_LOADED''))))"

definition polls_stuck :: "nat \<Rightarrow> error + copy_history_row option" where
  "polls_stuck k = Inr (Some (row_with (Some ''LOADING'')))"

definition polls_mixed_case :: "nat \<Rightarrow> error + copy_history_row option" where
  "polls_mixed_case k =
     (if k = 0 then Inr (Some (row_with None))
      else Inr (Some (row_with (Some ''Loaded''))))"

definition polls_lower_failed :: "nat \<Rightarrow> error + copy_history_row option" where
  "polls_lower_failed k = Inr (Some (row_with (Some ''load_failed'')))"


section \<open>Properties of the string primitives\<close>

lemma startswith_iff: "startswith s p \<longleftrightarrow> (\<exists>r. s = p @ r)"
proof
  assume "startswith s p"
  then have "s = p @ drop (length p) s"
    unfolding startswith_def by (metis append_take_drop_id)
  then show "\<exists>r. s = p @ r" ..
next
  assume "\<exists>r. s = p @ r"
  then show "startswith s p" unfolding startswith_def by auto
qed

lemma contains_iff: "contains s p \<longleftrightarrow> (\<exists>a b. s = a @ p @ b)"
proof (induction s)
  case Nil
  then show ?case by auto
next
  case (Cons c cs)
  show ?case
  proof
    assume "contains (c # cs) p"
    then consider "startswith (c # cs) p" | "contains cs p" by auto
    then show "\<exists>a b. c # cs = a @ p @ b"
    proof cases
      case 1
      then obtain r where "c # cs = p @ r" using startswith_iff by blast
      then have "c # cs = [] @ p @ r" by simp
      then show ?thesis by blast
    next
      case 2
      then obtain a b where "cs = a @ p @ b" using Cons.IH by blast
      then have "c # cs = (c # a) @ p @ b" by simp
      then show ?thesis by blast
    qed
  next
    assume "\<exists>a b. c # cs = a @ p @ b"
    then obtain a b where ab: "c # cs = a @ p @ b" by blast
    show "contains (c # cs) p"
    proof (cases a)
      case Nil
      with ab have "startswith (c # cs) p" using startswith_iff by auto
      then show ?thesis by simp
    next
      case (Cons x a')
      with ab have "cs = a' @ p @ b" by simp
      then have "contains cs p" using Cons.IH by blast
      then show ?thesis by simp
    qed
  qed
qed

lemma routes_glob_iff:
  "(\<exists>a b. s = ''routes_'' @ a @ ''dsk4'' @ b) \<longleftrightarrow> startswith s ''routes_'' \<and> contains s ''dsk4''"
proof
  assume "\<exists>a b. s = ''routes_'' @ a @ ''dsk4'' @ b"
  then obtain a b where s: "s = ''routes_'' @ a @ ''dsk4'' @ b" by blast
  have "startswith s ''routes_''" using s startswith_iff by blast
  moreover have "s = (''routes_'' @ a) @ ''dsk4'' @ b" using s by simp
  then have "contains s ''dsk4''" using contains_iff by blast
  ultimately show "startswith s ''routes_'' \<and> contains s ''dsk4''" ..
next
  assume h: "startswith s ''routes_'' \<and> contains s ''dsk4''"
  then obtain r where r: "s = ''routes_'' @ r" using startswith_iff by blast
  from h obtain a b where ab: "s = a @ ''dsk4'' @ b" using contains_iff by blast
  have "contains (''routes_'' @ r) ''dsk4'' = contains r ''dsk4''"
    by (simp add: startswith_def)
  with h r have "contains r ''dsk4''" by simp
  then obtain a b where "r = a @ ''dsk4'' @ b" using contains_iff by blast
  with r show "\<exists>a b. s = ''routes_'' @ a @ ''dsk4'' @ b" by blast
qed


section \<open>Sheet-name sanitization\<close>

text \<open>Accented letters, superscript digits and fractions are alphanumeric and kept;
  the multiplication sign, the division sign and the space are replaced.\<close>

lemma safe_latin1_examples:
  "safe [CHR ''R'', CHR 0xE9, CHR ''s'', CHR ''u'', CHR ''m'', CHR 0xE9] =
     [CHR ''R'', CHR 0xE9, CHR ''s'', CHR ''u'', CHR ''m'', CHR 0xE9]"
  "safe [CHR 0xAA, CHR 0xB2, CHR 0xB5, CHR 0xB9, CHR 0xBA, CHR 0xBD, CHR 0xC0, CHR 0xFF] =
     [CHR 0xAA, CHR 0xB2, CHR 0xB5, CHR 0xB9, CHR 0xBA, CHR 0xBD, CHR 0xC0, CHR 0xFF]"
  "safe [CHR ''a'', CHR 0xD7, CHR 0xF7, CHR '' '', CHR 0xA0, CHR ''-'', CHR ''.''] = ''a____-_''"
  by (simp_all add: safe_def isalnum_def isalpha_def isdecimal_def isdigit_def isnumeric_def
      between_def code_point_def ascii_upper_def ascii_lower_def)

text \<open>
  Claim C4. Sanitizing is idempotent, \<open>_safe(_safe(s)) = _safe(s)\<close> for every string, and
  every character of \<open>_safe(s)\<close> is alphanumeric, a hyphen or an underscore.
\<close>

theorem safe_idempotent_and_clean:
  "safe (safe s) = safe s \<and>
   list_all (\<lambda>c. isalnum c \<or> c = CHR ''-'' \<or> c = CHR ''_'') (safe s)"
proof
  show "safe (safe s) = safe s"
    by (induction s) (simp_all add: safe_def)
  show "list_all (\<lambda>c. isalnum c \<or> c = CHR ''-'' \<or> c = CHR ''_'') (safe s)"
    by (induction s) (simp_all add: safe_def)
qed


section \<open>Classification by file name\<close>

text \<open>
  Claim C2, as the claim states it, fails where a name matches both rules: the routes
  rule is tried first. The name below contains \<open>dayofopsplan\<close> in lower case and is
  classified as driver routes.
\<close>

theorem dayofopsplan_after_routes_counterexample:
  "lower ''Routes_DSK4_DayOfOpsPlan.xlsx'' = ''routes_dsk4_'' @ ''dayofopsplan'' @ ''.xlsx'' \<and>
   determine_file_type ''Routes_DSK4_DayOfOpsPlan.xlsx'' = (''driver_routes'', Some ''Routes'') \<and>
   determine_file_type ''Routes_DSK4_DayOfOpsPlan.xlsx'' \<noteq> (''dsp_summary'', None)"
  by (simp add: determine_file_type_def lower_def lower_char_def ascii_upper_def
      ascii_lower_def startswith_def)

text \<open>
  Claim C2, amended. Every file name whose lower-case form is \<open>routes_\<close>, anything,
  \<open>dsk4\<close>, anything, is classified as driver routes (folder \<open>driver_routes\<close>) with the
  target sheet \<open>Routes\<close>; every file name whose lower-case form contains
  \<open>dayofopsplan\<close> and that does not match the routes pattern is classified as dispatch
  summary (folder \<open>dsp_summary\<close>) with no target sheet.
\<close>

theorem determine_file_type_rules:
  "((\<exists>a b. lower f = ''routes_'' @ a @ ''dsk4'' @ b) \<longrightarrow>
      determine_file_type f = (''driver_routes'', Some ''Routes'')) \<and>
   ((\<exists>a b. lower f = a @ ''dayofopsplan'' @ b) \<and>
    \<not> (\<exists>a b. lower f = ''routes_'' @ a @ ''dsk4'' @ b) \<longrightarrow>
      determine_file_type f = (''dsp_summary'', None))"
  unfolding routes_glob_iff determine_file_type_def Let_def by simp

theorem determine_file_type_rules_witness:
  "lower ''Routes_DSK4_2025-09-13_15_16 (EDT).xlsx'' =
     ''routes_'' @ [] @ ''dsk4'' @ ''_2025-09-13_15_16 (edt).xlsx'' \<and>
   determine_file_type ''Routes_DSK4_2025-09-13_15_16 (EDT).xlsx'' =
     (''driver_routes'', Some ''Routes'') \<and>
   lower ''2025-02-10-DSK4-CYCLE_1-DSP-DayOfOpsPlan.xlsx'' =
     ''2025-02-10-dsk4-cycle_1-dsp-'' @ ''dayofopsplan'' @ ''.xlsx'' \<and>
   determine_file_type ''2025-02-10-DSK4-CYCLE_1-DSP-DayOfOpsPlan.xlsx'' =
     (''dsp_summary'', None)"
proof -
  have l1: "lower ''Routes_DSK4_2025-09-13_15_16 (EDT).xlsx'' =
      ''routes_'' @ [] @ ''dsk4'' @ ''_2025-09-13_15_16 (edt).xlsx''"
    by (simp add: lower_def lower_char_def ascii_upper_def ascii_lower_def)
  have l2: "lower ''2025-02-10-DSK4-CYCLE_1-DSP-DayOfOpsPlan.xlsx'' =
      ''2025-02-10-dsk4-cycle_1-dsp-'' @ ''dayofopsplan'' @ ''.xlsx''"
    by (simp add: lower_def lower_char_def ascii_upper_def ascii_lower_def)
  have n2: "\<not> (\<exists>a b. lower ''2025-02-10-DSK4-CYCLE_1-DSP-DayOfOpsPlan.xlsx'' =
      ''routes_'' @ a @ ''dsk4'' @ b)"
    unfolding l2 by simp
  from l1 have e1: "\<exists>a b. lower ''Routes_DSK4_2025-09-13_15_16 (EDT).xlsx'' =
      ''routes_'' @ a @ ''dsk4'' @ b"
    by blast
  from l2 have e2: "\<exists>a b. lower ''2025-02-10-DSK4-CYCLE_1-DSP-DayOfOpsPlan.xlsx'' =
      a @ ''dayofopsplan'' @ b"
    by blast
  have d1: "determine_file_type ''Routes_DSK4_2025-09-13_15_16 (EDT).xlsx'' =
      (''driver_routes'', Some ''Routes'')"
    using determine_file_type_rules [of "''Routes_DSK4_2025-09-13_15_16 (EDT).xlsx''"] e1
    by blast
  have d2: "determine_file_type ''2025-02-10-DSK4-CYCLE_1-DSP-DayOfOpsPlan.xlsx'' =
      (''dsp_summary'', None)"
    using determine_file_type_rules [of "''2025-02-10-DSK4-CYCLE_1-DSP-DayOfOpsPlan.xlsx''"]
      e2 n2
    by blast
  from l1 d1 l2 d2 show ?thesis by blast
qed


section \<open>The partition key\<close>

lemma re_search_date_None:
  "re_search_date s = None \<longleftrightarrow> (\<forall>a t b. s = a @ t @ b \<longrightarrow> \<not> date_shape t)"
proof (induction s)
  case Nil
  then show ?case by (auto simp: date_shape_def)
next
  case (Cons c cs)
  show ?case
  proof (cases "date_shape (take 10 (c # cs))")
    case True
    have "c # cs = [] @ take 10 (c # cs) @ drop 10 (c # cs)" by simp
    with True show ?thesis by (metis option.distinct(1) re_search_date.simps(2))
  next
    case False
    have "(\<forall>a t b. c # cs = a @ t @ b \<longrightarrow> \<not> date_shape t) \<longleftrightarrow>
          (\<forall>a t b. cs = a @ t @ b \<longrightarrow> \<not> date_shape t)"
    proof
      assume h: "\<forall>a t b. c # cs = a @ t @ b \<longrightarrow> \<not> date_shape t"
      show "\<forall>a t b. cs = a @ t @ b \<longrightarrow> \<not> date_shape t"
      proof (intro allI impI)
        fix a t b assume "cs = a @ t @ b"
        then have "c # cs = (c # a) @ t @ b" by simp
        with h show "\<not> date_shape t" by blast
      qed
    next
      assume h: "\<forall>a t b. cs = a @ t @ b \<longrightarrow> \<not> date_shape t"
      show "\<forall>a t b. c # cs = a @ t @ b \<longrightarrow> \<not> date_shape t"
      proof (intro allI impI)
        fix a t b assume e: "c # cs = a @ t @ b"
        show "\<not> date_shape t"
        proof (cases a)
          case Nil
          show ?thesis
          proof
            assume d: "date_shape t"
            then have "length t = 10" by (simp add: date_shape_def)
            with e Nil have "take 10 (c # cs) = t" by simp
            with d False show False by simp
          qed
        next
          case (Cons x a')
          with e have "cs = a' @ t @ b" by simp
          with h show ?thesis by blast
        qed
      qed
    qed
    with False Cons.IH show ?thesis by simp
  qed
qed

lemma re_search_date_first:
  "first_date_at s a t b \<Longrightarrow>
   re_search_date s = Some (take 4 t, take 2 (drop 5 t), take 2 (drop 8 t))"
proof (induction a arbitrary: s)
  case Nil
  then have s: "s = t @ b" and d: "date_shape t" by (simp_all add: first_date_at_def)
  from d have len: "length t = 10" by (simp add: date_shape_def)
  then obtain c cs where t: "t = c # cs" by (cases t) auto
  from s len have tk: "take 10 s = t" by simp
  from s t have "s = c # (cs @ b)" by simp
  moreover from len s have "take 4 s = take 4 t" "take 2 (drop 5 s) = take 2 (drop 5 t)"
    "take 2 (drop 8 s) = take 2 (drop 8 t)" by simp_all
  ultimately show ?case using d tk by (metis re_search_date.simps(2))
next
  case (Cons x a')
  then have s: "s = (x # a') @ t @ b" and d: "date_shape t"
    and lm: "\<forall>a'' t' b'. s = a'' @ t' @ b' \<and> date_shape t' \<longrightarrow> length (x # a') \<le> length a''"
    by (simp_all add: first_date_at_def)
  define s' where "s' = a' @ t @ b"
  have ss: "s = x # s'" using s s'_def by simp
  have nd: "\<not> date_shape (take 10 s)"
  proof
    assume "date_shape (take 10 s)"
    moreover have "s = [] @ take 10 s @ drop 10 s" by simp
    ultimately have "length (x # a') \<le> length ([]::string)" using lm by blast
    then show False by simp
  qed
  have "first_date_at s' a' t b"
    unfolding first_date_at_def
  proof (intro conjI allI impI)
    show "s' = a' @ t @ b" by (simp add: s'_def)
    show "date_shape t" by (rule d)
    fix a'' t' b' assume h: "s' = a'' @ t' @ b' \<and> date_shape t'"
    then have "s = (x # a'') @ t' @ b'" using ss by simp
    with h lm have "length (x # a') \<le> length (x # a'')" by blast
    then show "length a' \<le> length a''" by simp
  qed
  then have "re_search_date s' = Some (take 4 t, take 2 (drop 5 t), take 2 (drop 8 t))"
    by (rule Cons.IH)
  with nd ss show ?case by simp
qed

lemma valid_date_ym:
  "valid_calendar_date y m d \<Longrightarrow> 1 \<le> y \<and> y \<le> 9999 \<and> 1 \<le> m \<and> m \<le> 12"
  by (simp add: valid_calendar_date_def)


text \<open>
  Claim C3, as the claim states it, fails for a date whose day is invalid: the code
  validates the year and the month with the day set to 01. The stem below has the first
  date-shaped substring 2025-02-31, which is no calendar date; the extraction returns
  2025 and 02, not the current year and month (here November 2026).
\<close>

theorem invalid_day_counterexample:
  "date_shape ''2025-02-31'' \<and> \<not> valid_calendar_date 2025 2 31 \<and>
   re_search_date ''plan_2025-02-31'' = Some (''2025'', ''02'', ''31'') \<and>
   extract_year_month \<lparr>now_year = 2026, now_month = 11\<rparr> ''plan_2025-02-31'' =
     (''2025'', ''02'') \<and>
   (str_nat 2026, fmt_02d 11) = (''2026'', ''11'')"
  by (simp add: date_shape_def isdecimal_def valid_calendar_date_def days_in_month_def
      is_leap_def extract_year_month_def strptime_first_of_month_def int_of_digits_def
      digit_val_def str_nat.simps fmt_02d_def)

text \<open>
  Claim C3, amended. For every stem whose first substring of the shape YYYY-MM-DD has a
  year from 0001 to 9999 and a month from 01 to 12, the extraction returns the year and
  the two-digit month of that substring, whatever its day; so it does for every first
  such substring that is a valid calendar date. For every stem with no substring of that
  shape, or whose first such substring has the year 0000 or a month outside 01 to 12, it
  returns the current UTC year and the zero-padded current month.
\<close>

theorem extract_year_month_rules:
  "(first_date_at stem a t b \<longrightarrow>
      extract_year_month now stem =
        (if 1 \<le> int_of_digits (take 4 t) \<and> int_of_digits (take 4 t) \<le> 9999 \<and>
            1 \<le> int_of_digits (take 2 (drop 5 t)) \<and> int_of_digits (take 2 (drop 5 t)) \<le> 12
         then (take 4 t, take 2 (drop 5 t))
         else (str_nat (now_year now), fmt_02d (now_month now)))) \<and>
   (first_date_at stem a t b \<and>
    valid_calendar_date (int_of_digits (take 4 t)) (int_of_digits (take 2 (drop 5 t)))
      (int_of_digits (drop 8 t)) \<longrightarrow>
      extract_year_month now stem = (take 4 t, take 2 (drop 5 t))) \<and>
   ((\<forall>a t b. stem = a @ t @ b \<longrightarrow> \<not> date_shape t) \<longrightarrow>
      extract_year_month now stem = (str_nat (now_year now), fmt_02d (now_month now)))"
proof (intro conjI impI)
  assume f: "first_date_at stem a t b"
  show "extract_year_month now stem =
        (if 1 \<le> int_of_digits (take 4 t) \<and> int_of_digits (take 4 t) \<le> 9999 \<and>
            1 \<le> int_of_digits (take 2 (drop 5 t)) \<and> int_of_digits (take 2 (drop 5 t)) \<le> 12
         then (take 4 t, take 2 (drop 5 t))
         else (str_nat (now_year now), fmt_02d (now_month now)))"
    using re_search_date_first [OF f]
    by (simp add: extract_year_month_def strptime_first_of_month_def)
next
  assume f: "first_date_at stem a t b \<and>
    valid_calendar_date (int_of_digits (take 4 t)) (int_of_digits (take 2 (drop 5 t)))
      (int_of_digits (drop 8 t))"
  then have r: "re_search_date stem = Some (take 4 t, take 2 (drop 5 t), take 2 (drop 8 t))"
    using re_search_date_first by blast
  from f have "strptime_first_of_month (take 4 t) (take 2 (drop 5 t))"
    unfolding strptime_first_of_month_def using valid_date_ym by blast
  with r show "extract_year_month now stem = (take 4 t, take 2 (drop 5 t))"
    by (simp add: extract_year_month_def)
next
  assume "\<forall>a t b. stem = a @ t @ b \<longrightarrow> \<not> date_shape t"
  then have "re_search_date stem = None" using re_search_date_None by blast
  then show "extract_year_month now stem = (str_nat (now_year now), fmt_02d (now_month now))"
    by (simp add: extract_year_month_def)
qed


theorem extract_year_month_rules_witness:
  "first_date_at ''2025-02-10-DSK4'' [] ''2025-02-10'' ''-DSK4'' \<and>
   valid_calendar_date 2025 2 10 \<and>
   extract_year_month \<lparr>now_year = 2026, now_month = 11\<rparr> ''2025-02-10-DSK4'' =
     (''2025'', ''02'') \<and>
   first_date_at ''x2025-13-01'' ''x'' ''2025-13-01'' [] \<and>
   extract_year_month \<lparr>now_year = 2026, now_month = 11\<rparr> ''x2025-13-01'' =
     (''2026'', ''11'') \<and>
   re_search_date ''plan'' = None \<and>
   extract_year_month \<lparr>now_year = 2026, now_month = 3\<rparr> ''plan'' = (''2026'', ''03'')"
proof -
  let ?now = "\<lparr>now_year = 2026, now_month = 11\<rparr>"
  have f1: "first_date_at ''2025-02-10-DSK4'' [] ''2025-02-10'' ''-DSK4''"
    by (simp add: first_date_at_def date_shape_def isdecimal_def)
  have v1: "valid_calendar_date (int_of_digits (take 4 ''2025-02-10''))
      (int_of_digits (take 2 (drop 5 ''2025-02-10''))) (int_of_digits (drop 8 ''2025-02-10''))"
    by (simp add: valid_calendar_date_def days_in_month_def is_leap_def int_of_digits_def
        digit_val_def)
  have v1': "valid_calendar_date 2025 2 10"
    by (simp add: valid_calendar_date_def days_in_month_def is_leap_def)
  have r1: "extract_year_month ?now ''2025-02-10-DSK4'' = (''2025'', ''02'')"
    using extract_year_month_rules [of "''2025-02-10-DSK4''" "[]" "''2025-02-10''" "''-DSK4''" ?now]
      f1 v1
    by (simp add: int_of_digits_def digit_val_def)
  have f2: "first_date_at ''x2025-13-01'' ''x'' ''2025-13-01'' []"
    unfolding first_date_at_def
  proof (intro conjI allI impI)
    show "''x2025-13-01'' = ''x'' @ ''2025-13-01'' @ []" by simp
    show "date_shape ''2025-13-01''" by (simp add: date_shape_def isdecimal_def)
    fix a' t' b' assume h: "''x2025-13-01'' = a' @ t' @ b' \<and> date_shape t'"
    show "length ''x'' \<le> length a'"
    proof (cases a')
      case Nil
      from h have "length t' = 10" by (simp add: date_shape_def)
      with h Nil have "t' = take 10 ''x2025-13-01''" by simp
      with h have False by (simp add: date_shape_def isdecimal_def)
      then show ?thesis ..
    next
      case (Cons y ys)
      then show ?thesis by simp
    qed
  qed
  have r2: "extract_year_month ?now ''x2025-13-01'' = (''2026'', ''11'')"
    using extract_year_month_rules [of "''x2025-13-01''" "''x''" "''2025-13-01''" "[]" ?now] f2
    by (simp add: int_of_digits_def digit_val_def str_nat.simps fmt_02d_def)
  have n3: "re_search_date ''plan'' = None" by (simp add: date_shape_def)
  then have "\<forall>a t b. ''plan'' = a @ t @ b \<longrightarrow> \<not> date_shape t"
    using re_search_date_None by blast
  then have r3: "extract_year_month \<lparr>now_year = 2026, now_month = 3\<rparr> ''plan'' = (''2026'', ''03'')"
    using extract_year_month_rules [of "''plan''" "[]" "[]" "[]" "\<lparr>now_year = 2026, now_month = 3\<rparr>"]
    by (simp add: str_nat.simps fmt_02d_def)
  from f1 v1' r1 f2 r2 n3 r3 show ?thesis by blast
qed


section \<open>The archive step\<close>

lemma poll_time_mono: "j \<le> k \<Longrightarrow> poll_time env j \<le> poll_time env k"
  by (induction k) (auto simp: le_Suc_eq)

lemma wait_loop_True:
  "now = poll_time env k \<Longrightarrow> fst (wait_loop env deadline k now) \<Longrightarrow>
   \<exists>m\<ge>k. copy_status env m = Some ''success'' \<and> poll_time env m < deadline \<and>
     (\<forall>j. k \<le> j \<and> j < m \<longrightarrow> \<not> terminal (copy_status env j)) \<and>
     snd (wait_loop env deadline k now) = Suc m"
proof (induction env deadline k now rule: wait_loop.induct)
  case (1 env deadline k now)
  show ?case
  proof (cases "now < deadline")
    case False
    with "1.prems" show ?thesis by (simp add: wait_loop.simps)
  next
    case True
    show ?thesis
    proof (cases "copy_status env k = Some ''success''")
      case s: True
      with True "1.prems" show ?thesis
        by (intro exI [of _ k]) (auto simp: wait_loop.simps)
    next
      case ns: False
      show ?thesis
      proof (cases "copy_status env k \<in> {Some ''aborted'', Some ''failed''}")
        case t: True
        with True ns "1.prems" show ?thesis by (simp add: wait_loop.simps)
      next
        case nt: False
        let ?now' = "now + 1000 + int (poll_lag env k)"
        have eq: "wait_loop env deadline k now = wait_loop env deadline (Suc k) ?now'"
          using True ns nt by (subst wait_loop.simps) simp
        have "?now' = poll_time env (Suc k)" using "1.prems" by simp
        moreover have "fst (wait_loop env deadline (Suc k) ?now')" using "1.prems" eq by simp
        ultimately obtain m where m: "m \<ge> Suc k" "copy_status env m = Some ''success''"
          "poll_time env m < deadline"
          "\<forall>j. Suc k \<le> j \<and> j < m \<longrightarrow> \<not> terminal (copy_status env j)"
          "snd (wait_loop env deadline (Suc k) ?now') = Suc m"
          using "1.IH" [OF True ns nt] by blast
        have "\<not> terminal (copy_status env k)" using ns nt by (simp add: terminal_def)
        with m have "\<forall>j. k \<le> j \<and> j < m \<longrightarrow> \<not> terminal (copy_status env j)"
          by (metis Suc_leI le_neq_implies_less)
        with m eq show ?thesis by (intro exI [of _ m]) simp
      qed
    qed
  qed
qed

lemma wait_loop_complete:
  "now = poll_time env k \<Longrightarrow> k \<le> m \<Longrightarrow> copy_status env m = Some ''success'' \<Longrightarrow>
   poll_time env m < deadline \<Longrightarrow>
   (\<forall>j. k \<le> j \<and> j < m \<longrightarrow> \<not> terminal (copy_status env j)) \<Longrightarrow>
   wait_loop env deadline k now = (True, Suc m)"
proof (induction env deadline k now rule: wait_loop.induct)
  case (1 env deadline k now)
  have "poll_time env k \<le> poll_time env m" using "1.prems" poll_time_mono by blast
  with "1.prems" have lt: "now < deadline" by simp
  show ?case
  proof (cases "k = m")
    case True
    with lt "1.prems" show ?thesis by (simp add: wait_loop.simps)
  next
    case False
    with "1.prems" have km: "k < m" by simp
    with "1.prems" have nt: "\<not> terminal (copy_status env k)" by simp
    then have ns: "copy_status env k \<noteq> Some ''success''"
      and na: "copy_status env k \<notin> {Some ''aborted'', Some ''failed''}"
      by (auto simp: terminal_def)
    let ?now' = "now + 1000 + int (poll_lag env k)"
    have eq: "wait_loop env deadline k now = wait_loop env deadline (Suc k) ?now'"
      using lt ns na by (subst wait_loop.simps) simp
    have "wait_loop env deadline (Suc k) ?now' = (True, Suc m)"
    proof (rule "1.IH" [OF lt ns na])
      show "?now' = poll_time env (Suc k)" using "1.prems" by simp
      show "Suc k \<le> m" using km by simp
      show "copy_status env m = Some ''success''" using "1.prems" by simp
      show "poll_time env m < deadline" using "1.prems" by simp
      show "\<forall>j. Suc k \<le> j \<and> j < m \<longrightarrow> \<not> terminal (copy_status env j)"
        using "1.prems" by simp
    qed
    with eq show ?thesis by simp
  qed
qed

lemma wait_for_copy_success_iff:
  "fst (wait_for_copy_success env timeout_s) \<longleftrightarrow>
   (\<exists>m. copy_status env m = Some ''success'' \<and>
        poll_time env m < clock env + 1000 * timeout_s \<and>
        (\<forall>j<m. \<not> terminal (copy_status env j)))"
proof
  assume "fst (wait_for_copy_success env timeout_s)"
  then show "\<exists>m. copy_status env m = Some ''success'' \<and>
        poll_time env m < clock env + 1000 * timeout_s \<and>
        (\<forall>j<m. \<not> terminal (copy_status env j))"
    unfolding wait_for_copy_success_def
    using wait_loop_True [of "clock env" env 0 "clock env + 1000 * timeout_s"] by auto
next
  assume "\<exists>m. copy_status env m = Some ''success'' \<and>
        poll_time env m < clock env + 1000 * timeout_s \<and>
        (\<forall>j<m. \<not> terminal (copy_status env j))"
  then obtain m where "copy_status env m = Some ''success''"
    "poll_time env m < clock env + 1000 * timeout_s" "\<forall>j<m. \<not> terminal (copy_status env j)"
    by blast
  then have "wait_loop env (clock env + 1000 * timeout_s) 0 (clock env) = (True, Suc m)"
    by (intro wait_loop_complete) simp_all
  then show "fst (wait_for_copy_success env timeout_s)"
    by (simp add: wait_for_copy_success_def)
qed

lemma delete_in_process_file:
  "DeleteBlob b \<in> set (effects (process_file env blob_name filename)) \<Longrightarrow>
   fst (wait_for_copy_success env 60) \<and> b = blob_name"
  unfolding process_file_def Let_def
  by (auto simp: returned_def raised_def split: prod.splits sum.splits option.splits if_splits)

lemma delete_in_split_excel:
  "DeleteBlob b \<in> set (effects (split_excel env full_path)) \<Longrightarrow>
   fst (wait_for_copy_success env 60) \<and> b = blob_name_of full_path"
  unfolding split_excel_def Let_def
  using delete_in_process_file
  by (auto simp: returned_def split: if_splits)


text \<open>
  Claim C1. In every run of the splitter, a \<open>delete_blob\<close> happens only for the source
  blob and only if some poll reported the copy status \<open>success\<close> at a round whose clock
  test was within the 60 seconds, with no terminal status reported before it. If a poll
  reports \<open>aborted\<close> or \<open>failed\<close> and no earlier poll reported \<open>success\<close>, or if no poll
  within the 60 seconds reports \<open>success\<close>, nothing is deleted.
\<close>

theorem source_deleted_only_after_copy_success:
  "(DeleteBlob b \<in> set (effects (split_excel env full_path)) \<longrightarrow>
      b = blob_name_of full_path \<and>
      (\<exists>m. copy_status env m = Some ''success'' \<and> poll_time env m < clock env + 1000 * 60 \<and>
           (\<forall>j<m. \<not> terminal (copy_status env j)))) \<and>
   ((\<exists>m. copy_status env m \<in> {Some ''aborted'', Some ''failed''} \<and>
         (\<forall>j<m. copy_status env j \<noteq> Some ''success'')) \<longrightarrow>
      DeleteBlob b \<notin> set (effects (split_excel env full_path))) \<and>
   ((\<forall>m. poll_time env m < clock env + 1000 * 60 \<longrightarrow> copy_status env m \<noteq> Some ''success'') \<longrightarrow>
      DeleteBlob b \<notin> set (effects (split_excel env full_path)))"
proof -
  have only_if: "b = blob_name_of full_path \<and>
      (\<exists>m. copy_status env m = Some ''success'' \<and> poll_time env m < clock env + 1000 * 60 \<and>
           (\<forall>j<m. \<not> terminal (copy_status env j)))"
    if d: "DeleteBlob b \<in> set (effects (split_excel env full_path))"
  proof -
    from d have "fst (wait_for_copy_success env 60)" and b: "b = blob_name_of full_path"
      using delete_in_split_excel by blast+
    then have "\<exists>m. copy_status env m = Some ''success'' \<and>
        poll_time env m < clock env + 1000 * 60 \<and> (\<forall>j<m. \<not> terminal (copy_status env j))"
      using wait_for_copy_success_iff by blast
    with b show ?thesis by blast
  qed
  have failed: "DeleteBlob b \<notin> set (effects (split_excel env full_path))"
    if "\<exists>m. copy_status env m \<in> {Some ''aborted'', Some ''failed''} \<and>
         (\<forall>j<m. copy_status env j \<noteq> Some ''success'')"
  proof
    from that obtain m where m: "copy_status env m \<in> {Some ''aborted'', Some ''failed''}"
      "\<forall>j<m. copy_status env j \<noteq> Some ''success''" by blast
    assume "DeleteBlob b \<in> set (effects (split_excel env full_path))"
    then obtain m' where m': "copy_status env m' = Some ''success''"
      "\<forall>j<m'. \<not> terminal (copy_status env j)"
      using only_if by blast
    have tm: "terminal (copy_status env m)" using m(1) by (auto simp: terminal_def)
    consider "m' < m" | "m' = m" | "m < m'" by linarith
    then show False
    proof cases
      case 1 with m(2) m'(1) show False by blast
    next
      case 2 with m(1) m'(1) show False by auto
    next
      case 3 with m'(2) tm show False by blast
    qed
  qed
  have timeout: "DeleteBlob b \<notin> set (effects (split_excel env full_path))"
    if n: "\<forall>m. poll_time env m < clock env + 1000 * 60 \<longrightarrow>
             copy_status env m \<noteq> Some ''success''"
  proof
    assume "DeleteBlob b \<in> set (effects (split_excel env full_path))"
    then obtain m' where "copy_status env m' = Some ''success''"
      "poll_time env m' < clock env + 1000 * 60"
      using only_if by blast
    with n show False by blast
  qed
  from only_if failed timeout show ?thesis by blast
qed


section \<open>Runs of the splitter on concrete files\<close>

lemma filename_plain:
  "filename_of ''ingestion/2025-02-10-DSK4-CYCLE_1-DSP-DayOfOpsPlan.xlsx'' =
     ''2025-02-10-DSK4-CYCLE_1-DSP-DayOfOpsPlan.xlsx''"
  by (simp add: filename_of_def basename_def strip_def rstrip_space_def rstrip_def isspace_def)

lemma blob_plain:
  "blob_name_of ''ingestion/2025-02-10-DSK4-CYCLE_1-DSP-DayOfOpsPlan.xlsx'' =
     ''2025-02-10-DSK4-CYCLE_1-DSP-DayOfOpsPlan.xlsx''"
  by (simp add: blob_name_of_def after_first_slash_def)

lemma ext_plain:
  "endswith (lower ''2025-02-10-DSK4-CYCLE_1-DSP-DayOfOpsPlan.xlsx'') ''.xlsx''"
  by (simp add: endswith_def lower_def lower_char_def ascii_upper_def ascii_lower_def)

lemma ym_plain:
  "extract_year_month now ''2025-02-10-DSK4-CYCLE_1-DSP-DayOfOpsPlan'' = (''2025'', ''02'')"
  by (simp add: extract_year_month_def date_shape_def isdecimal_def strptime_first_of_month_def
      int_of_digits_def digit_val_def)

lemma ft_plain:
  "determine_file_type ''2025-02-10-DSK4-CYCLE_1-DSP-DayOfOpsPlan.xlsx'' = (''dsp_summary'', None)"
  by (simp add: determine_file_type_def lower_def lower_char_def ascii_upper_def ascii_lower_def
      startswith_def)

lemma safe_names: "safe ''Solution'' = ''Solution''" "safe ''Notes'' = ''Notes''"
  by (simp_all add: safe_def isalnum_def isalpha_def ascii_upper_def ascii_lower_def)

lemma dayofopsplan_run:
  assumes "get_blob_service_client env = Inr ()"
    and "workbook_sheets env = Some [''Solution'', ''Notes'']"
  shows "split_excel env ''ingestion/2025-02-10-DSK4-CYCLE_1-DSP-DayOfOpsPlan.xlsx'' =
           returned
             ([ReadInput,
               UploadBlob ''dsp_summary/2025/02/2025-02-10-DSK4-CYCLE_1-DSP-DayOfOpsPlan__Solution.csv''
                 (sheet_csv env ''Solution'') ''Solution'',
               UploadBlob ''dsp_summary/2025/02/2025-02-10-DSK4-CYCLE_1-DSP-DayOfOpsPlan__Notes.csv''
                 (sheet_csv env ''Notes'') ''Notes'',
               StartCopy ''2025-02-10-DSK4-CYCLE_1-DSP-DayOfOpsPlan.xlsx''
                 ''_archive/dsp_summary/2025/02/2025-02-10-DSK4-CYCLE_1-DSP-DayOfOpsPlan.xlsx''] @
              replicate (snd (wait_for_copy_success env 60))
                (GetBlobProperties
                   ''_archive/dsp_summary/2025/02/2025-02-10-DSK4-CYCLE_1-DSP-DayOfOpsPlan.xlsx'') @
              (if fst (wait_for_copy_success env 60)
               then [DeleteBlob ''2025-02-10-DSK4-CYCLE_1-DSP-DayOfOpsPlan.xlsx'']
               else []))"
proof -
  have sel: "select_sheets None [''Solution'', ''Notes''] = Some [''Solution'', ''Notes'']"
    by (simp add: select_sheets_def truthy_def ACCEPTED_SHEETS_def)
  have pf: "process_file env ''2025-02-10-DSK4-CYCLE_1-DSP-DayOfOpsPlan.xlsx''
             ''2025-02-10-DSK4-CYCLE_1-DSP-DayOfOpsPlan.xlsx'' =
           returned
             ([ReadInput,
               UploadBlob ''dsp_summary/2025/02/2025-02-10-DSK4-CYCLE_1-DSP-DayOfOpsPlan__Solution.csv''
                 (sheet_csv env ''Solution'') ''Solution'',
               UploadBlob ''dsp_summary/2025/02/2025-02-10-DSK4-CYCLE_1-DSP-DayOfOpsPlan__Notes.csv''
                 (sheet_csv env ''Notes'') ''Notes'',
               StartCopy ''2025-02-10-DSK4-CYCLE_1-DSP-DayOfOpsPlan.xlsx''
                 ''_archive/dsp_summary/2025/02/2025-02-10-DSK4-CYCLE_1-DSP-DayOfOpsPlan.xlsx''] @
              replicate (snd (wait_for_copy_success env 60))
                (GetBlobProperties
                   ''_archive/dsp_summary/2025/02/2025-02-10-DSK4-CYCLE_1-DSP-DayOfOpsPlan.xlsx'') @
              (if fst (wait_for_copy_success env 60)
               then [DeleteBlob ''2025-02-10-DSK4-CYCLE_1-DSP-DayOfOpsPlan.xlsx'']
               else []))"
    unfolding process_file_def
    by (simp add: ym_plain ft_plain assms sel safe_names case_prod_beta Let_def)
  show ?thesis
    unfolding split_excel_def
    by (simp add: blob_plain filename_plain ext_plain pf startswith_def Let_def)
qed

lemma example_worlds_configured:
  "get_blob_service_client env_success = Inr ()" "get_blob_service_client env_failed = Inr ()"
  "get_blob_service_client env_never = Inr ()" "get_blob_service_client env_routes = Inr ()"
  "workbook_sheets env_success = Some [''Solution'', ''Notes'']"
  "workbook_sheets env_failed = Some [''Solution'', ''Notes'']"
  "workbook_sheets env_never = Some [''Solution'', ''Notes'']"
  by (simp_all add: get_blob_service_client_def truthy_def env_success_def env_failed_def
      env_never_def env_routes_def)

lemma example_waits:
  "wait_for_copy_success env_success 60 = (True, 2)"
  "wait_for_copy_success env_failed 60 = (False, 2)"
  "wait_for_copy_success env_never 60 = (False, 2)"
  "wait_for_copy_success env_routes 60 = (True, 1)"
  by (simp_all add: wait_for_copy_success_def wait_loop.simps env_success_def env_failed_def
      env_never_def env_routes_def)

text \<open>The witness of claim C1: the three example worlds.\<close>

theorem source_deleted_only_after_copy_success_witness:
  "DeleteBlob ''2025-02-10-DSK4-CYCLE_1-DSP-DayOfOpsPlan.xlsx''
     \<in> set (effects (split_excel env_success
          ''ingestion/2025-02-10-DSK4-CYCLE_1-DSP-DayOfOpsPlan.xlsx'')) \<and>
   (\<exists>m. copy_status env_success m = Some ''success'' \<and>
        poll_time env_success m < clock env_success + 1000 * 60 \<and>
        (\<forall>j<m. \<not> terminal (copy_status env_success j))) \<and>
   copy_status env_failed 1 = Some ''failed'' \<and>
   DeleteBlob ''2025-02-10-DSK4-CYCLE_1-DSP-DayOfOpsPlan.xlsx''
     \<notin> set (effects (split_excel env_failed
          ''ingestion/2025-02-10-DSK4-CYCLE_1-DSP-DayOfOpsPlan.xlsx'')) \<and>
   DeleteBlob ''2025-02-10-DSK4-CYCLE_1-DSP-DayOfOpsPlan.xlsx''
     \<notin> set (effects (split_excel env_never
          ''ingestion/2025-02-10-DSK4-CYCLE_1-DSP-DayOfOpsPlan.xlsx''))"
proof -
  let ?p = "''ingestion/2025-02-10-DSK4-CYCLE_1-DSP-DayOfOpsPlan.xlsx''"
  let ?b = "''2025-02-10-DSK4-CYCLE_1-DSP-DayOfOpsPlan.xlsx''"
  have d: "DeleteBlob ?b \<in> set (effects (split_excel env_success ?p))"
    using dayofopsplan_run [OF example_worlds_configured(1) example_worlds_configured(5)]
    by (simp add: example_waits returned_def)
  have s: "\<exists>m. copy_status env_success m = Some ''success'' \<and>
        poll_time env_success m < clock env_success + 1000 * 60 \<and>
        (\<forall>j<m. \<not> terminal (copy_status env_success j))"
    using source_deleted_only_after_copy_success [of ?b env_success ?p] d by blast
  have f1: "copy_status env_failed 1 = Some ''failed''" by (simp add: env_failed_def)
  have "copy_status env_failed 1 \<in> {Some ''aborted'', Some ''failed''} \<and>
      (\<forall>j<1. copy_status env_failed j \<noteq> Some ''success'')"
    by (simp add: env_failed_def)
  then have "\<exists>m. copy_status env_failed m \<in> {Some ''aborted'', Some ''failed''} \<and>
      (\<forall>j<m. copy_status env_failed j \<noteq> Some ''success'')"
    by blast
  then have f: "DeleteBlob ?b \<notin> set (effects (split_excel env_failed ?p))"
    using source_deleted_only_after_copy_success [of ?b env_failed ?p] by blast
  have "\<forall>m. poll_time env_never m < clock env_never + 1000 * 60 \<longrightarrow>
      copy_status env_never m \<noteq> Some ''success''"
    by (simp add: env_never_def)
  then have n: "DeleteBlob ?b \<notin> set (effects (split_excel env_never ?p))"
    using source_deleted_only_after_copy_success [of ?b env_never ?p] by blast
  from d s f1 f n show ?thesis by blast
qed

text \<open>
  Claim C8. With the storage connection configured, processing the blob
  \<open>ingestion/2025-02-10-DSK4-CYCLE_1-DSP-DayOfOpsPlan.xlsx\<close> whose workbook has the sheets
  Solution and Notes classifies it as dispatch summary with the partition 2025, 02; the
  run reads the workbook, writes exactly the two objects
  \<open>dsp_summary/2025/02/2025-02-10-DSK4-CYCLE_1-DSP-DayOfOpsPlan__Solution.csv\<close> and
  \<open>...__Notes.csv\<close>, starts the copy of the original to
  \<open>_archive/dsp_summary/2025/02/2025-02-10-DSK4-CYCLE_1-DSP-DayOfOpsPlan.xlsx\<close>, polls
  that copy, and deletes the original when the wait reports success.
\<close>

theorem scenario_dayofopsplan:
  assumes "get_blob_service_client env = Inr ()"
    and "workbook_sheets env = Some [''Solution'', ''Notes'']"
  shows "determine_file_type ''2025-02-10-DSK4-CYCLE_1-DSP-DayOfOpsPlan.xlsx'' =
           (''dsp_summary'', None) \<and>
         extract_year_month (utcnow env) ''2025-02-10-DSK4-CYCLE_1-DSP-DayOfOpsPlan'' =
           (''2025'', ''02'') \<and>
         split_excel env ''ingestion/2025-02-10-DSK4-CYCLE_1-DSP-DayOfOpsPlan.xlsx'' =
           returned
             ([ReadInput,
               UploadBlob ''dsp_summary/2025/02/2025-02-10-DSK4-CYCLE_1-DSP-DayOfOpsPlan__Solution.csv''
                 (sheet_csv env ''Solution'') ''Solution'',
               UploadBlob ''dsp_summary/2025/02/2025-02-10-DSK4-CYCLE_1-DSP-DayOfOpsPlan__Notes.csv''
                 (sheet_csv env ''Notes'') ''Notes'',
               StartCopy ''2025-02-10-DSK4-CYCLE_1-DSP-DayOfOpsPlan.xlsx''
                 ''_archive/dsp_summary/2025/02/2025-02-10-DSK4-CYCLE_1-DSP-DayOfOpsPlan.xlsx''] @
              replicate (snd (wait_for_copy_success env 60))
                (GetBlobProperties
                   ''_archive/dsp_summary/2025/02/2025-02-10-DSK4-CYCLE_1-DSP-DayOfOpsPlan.xlsx'') @
              (if fst (wait_for_copy_success env 60)
               then [DeleteBlob ''2025-02-10-DSK4-CYCLE_1-DSP-DayOfOpsPlan.xlsx'']
               else []))"
  using dayofopsplan_run [OF assms] ft_plain ym_plain by blast

theorem scenario_dayofopsplan_witness:
  "get_blob_service_client env_success = Inr () \<and>
   workbook_sheets env_success = Some [''Solution'', ''Notes''] \<and>
   split_excel env_success ''ingestion/2025-02-10-DSK4-CYCLE_1-DSP-DayOfOpsPlan.xlsx'' =
     returned
       [ReadInput,
        UploadBlob ''dsp_summary/2025/02/2025-02-10-DSK4-CYCLE_1-DSP-DayOfOpsPlan__Solution.csv''
          ''a,b'' ''Solution'',
        UploadBlob ''dsp_summary/2025/02/2025-02-10-DSK4-CYCLE_1-DSP-DayOfOpsPlan__Notes.csv''
          ''a,b'' ''Notes'',
        StartCopy ''2025-02-10-DSK4-CYCLE_1-DSP-DayOfOpsPlan.xlsx''
          ''_archive/dsp_summary/2025/02/2025-02-10-DSK4-CYCLE_1-DSP-DayOfOpsPlan.xlsx'',
        GetBlobProperties
          ''_archive/dsp_summary/2025/02/2025-02-10-DSK4-CYCLE_1-DSP-DayOfOpsPlan.xlsx'',
        GetBlobProperties
          ''_archive/dsp_summary/2025/02/2025-02-10-DSK4-CYCLE_1-DSP-DayOfOpsPlan.xlsx'',
        DeleteBlob ''2025-02-10-DSK4-CYCLE_1-DSP-DayOfOpsPlan.xlsx'']"
proof -
  note c = example_worlds_configured(1) and w = example_worlds_configured(5)
  have "sheet_csv env_success = (\<lambda>s. ''a,b'')" by (simp add: env_success_def)
  then have "split_excel env_success ''ingestion/2025-02-10-DSK4-CYCLE_1-DSP-DayOfOpsPlan.xlsx'' =
     returned
       [ReadInput,
        UploadBlob ''dsp_summary/2025/02/2025-02-10-DSK4-CYCLE_1-DSP-DayOfOpsPlan__Solution.csv''
          ''a,b'' ''Solution'',
        UploadBlob ''dsp_summary/2025/02/2025-02-10-DSK4-CYCLE_1-DSP-DayOfOpsPlan__Notes.csv''
          ''a,b'' ''Notes'',
        StartCopy ''2025-02-10-DSK4-CYCLE_1-DSP-DayOfOpsPlan.xlsx''
          ''_archive/dsp_summary/2025/02/2025-02-10-DSK4-CYCLE_1-DSP-DayOfOpsPlan.xlsx'',
        GetBlobProperties
          ''_archive/dsp_summary/2025/02/2025-02-10-DSK4-CYCLE_1-DSP-DayOfOpsPlan.xlsx'',
        GetBlobProperties
          ''_archive/dsp_summary/2025/02/2025-02-10-DSK4-CYCLE_1-DSP-DayOfOpsPlan.xlsx'',
        DeleteBlob ''2025-02-10-DSK4-CYCLE_1-DSP-DayOfOpsPlan.xlsx'']"
    using scenario_dayofopsplan [OF c w] by (simp add: example_waits numeral_2_eq_2)
  with c w show ?thesis by blast
qed


lemma routes_run:
  "process_file env_routes blob_name ''Routes_DSK4_2025-09-13.xlsx'' =
     returned
       [ReadInput,
        UploadBlob ''driver_routes/2025/09/Routes_DSK4_2025-09-13__Routes.csv''
          ''driver,stops'' ''Routes'',
        StartCopy blob_name ''_archive/driver_routes/2025/09/Routes_DSK4_2025-09-13.xlsx'',
        GetBlobProperties ''_archive/driver_routes/2025/09/Routes_DSK4_2025-09-13.xlsx'',
        DeleteBlob blob_name]"
proof -
  have ym: "extract_year_month (utcnow env_routes) ''Routes_DSK4_2025-09-13'' = (''2025'', ''09'')"
    by (simp add: extract_year_month_def date_shape_def isdecimal_def strptime_first_of_month_def
        int_of_digits_def digit_val_def)
  have ft: "determine_file_type ''Routes_DSK4_2025-09-13.xlsx'' =
      (''driver_routes'', Some ''Routes'')"
    by (simp add: determine_file_type_def lower_def lower_char_def ascii_upper_def
        ascii_lower_def startswith_def)
  have sel: "select_sheets (Some ''Routes'') [''Routes'', ''Summary''] = Some [''Routes'']"
    by (simp add: select_sheets_def truthy_def)
  have sf: "safe ''Routes'' = ''Routes''"
    by (simp add: safe_def isalnum_def isalpha_def ascii_upper_def ascii_lower_def)
  have e: "workbook_sheets env_routes = Some [''Routes'', ''Summary'']"
    "sheet_csv env_routes ''Routes'' = ''driver,stops''"
    by (simp_all add: env_routes_def)
  show ?thesis
    unfolding process_file_def
    by (simp add: ym ft example_worlds_configured(4) sel sf example_waits(4) e Let_def)
qed


section \<open>Internal paths\<close>

text \<open>The two prefixes the code tests are skipped without any effect.\<close>

lemma internal_paths_skipped:
  "startswith (blob_name_of full_path) ''_archive/'' \<or>
   startswith (blob_name_of full_path) ''dsp_summary/'' \<Longrightarrow>
   split_excel env full_path = returned []"
  by (simp add: split_excel_def Let_def)


text \<open>
  Claim C7 says that an invocation whose object path is under one of the per-category
  output folders or under the archive prefix is ignored, with no read of the workbook,
  no output write and no archive operation. The code skips \<open>_archive/\<close> and
  \<open>dsp_summary/\<close> only; for the output folder of the driver-routes category the claim
  fails: a workbook under \<open>driver_routes/\<close> is read, exported into the same folder,
  copied to the archive and deleted.
\<close>

theorem driver_routes_folder_reprocessed:
  "startswith (blob_name_of ''ingestion/driver_routes/2025/09/Routes_DSK4_2025-09-13.xlsx'')
     ''driver_routes/'' \<and>
   split_excel env_routes ''ingestion/driver_routes/2025/09/Routes_DSK4_2025-09-13.xlsx'' =
     returned
       [ReadInput,
        UploadBlob ''driver_routes/2025/09/Routes_DSK4_2025-09-13__Routes.csv''
          ''driver,stops'' ''Routes'',
        StartCopy ''driver_routes/2025/09/Routes_DSK4_2025-09-13.xlsx''
          ''_archive/driver_routes/2025/09/Routes_DSK4_2025-09-13.xlsx'',
        GetBlobProperties ''_archive/driver_routes/2025/09/Routes_DSK4_2025-09-13.xlsx'',
        DeleteBlob ''driver_routes/2025/09/Routes_DSK4_2025-09-13.xlsx'']"
proof -
  let ?p = "''ingestion/driver_routes/2025/09/Routes_DSK4_2025-09-13.xlsx''"
  have b: "blob_name_of ?p = ''driver_routes/2025/09/Routes_DSK4_2025-09-13.xlsx''"
    by (simp add: blob_name_of_def after_first_slash_def)
  have f: "filename_of ?p = ''Routes_DSK4_2025-09-13.xlsx''"
    by (simp add: filename_of_def basename_def strip_def rstrip_space_def rstrip_def isspace_def)
  have x: "endswith (lower ''Routes_DSK4_2025-09-13.xlsx'') ''.xlsx''"
    by (simp add: endswith_def lower_def lower_char_def ascii_upper_def ascii_lower_def)
  have s: "split_excel env_routes ?p =
      process_file env_routes ''driver_routes/2025/09/Routes_DSK4_2025-09-13.xlsx''
        ''Routes_DSK4_2025-09-13.xlsx''"
    unfolding split_excel_def by (simp add: b f x startswith_def Let_def)
  have "startswith (blob_name_of ?p) ''driver_routes/''"
    unfolding b by (simp add: startswith_def)
  with s show ?thesis by (simp add: routes_run)
qed


section \<open>Trimming the file name\<close>

text \<open>The no-break space and the next line control are stripped like the space.\<close>

lemma strip_latin1_examples:
  "strip ([CHR 0xA0] @ ''plan.xlsx'' @ [CHR 0x85, CHR '' '']) = ''plan.xlsx''"
  "filename_of (''ingestion/plan.xlsx'' @ [CHR 0xA0]) = ''plan.xlsx''"
  "filename_of (''ingestion/'' @ [CHR 0xA0] @ ''plan.xlsx'' @ [CHR 0x27]) = ''plan.xlsx''"
  by (simp_all add: filename_of_def basename_def strip_def rstrip_space_def rstrip_def
      isspace_def)

lemma basename_append:
  "CHR ''/'' \<notin> set f \<Longrightarrow> basename (d @ ''/'' @ f) = f"
proof -
  assume h: "CHR ''/'' \<notin> set f"
  have "takeWhile (\<lambda>c. c \<noteq> CHR ''/'') (rev f @ CHR ''/'' # rev d) =
        takeWhile (\<lambda>c. c \<noteq> CHR ''/'') (rev f)"
    by (rule takeWhile_tail) simp
  also have "\<dots> = rev f" using h by (auto simp: takeWhile_eq_all_conv)
  finally show ?thesis by (simp add: basename_def)
qed

lemma blob_name_of_append:
  "CHR ''/'' \<notin> set c \<Longrightarrow> blob_name_of (c @ ''/'' @ r) = r"
proof -
  assume h: "CHR ''/'' \<notin> set c"
  have "dropWhile (\<lambda>x. x \<noteq> CHR ''/'') (c @ CHR ''/'' # r) = CHR ''/'' # r"
    using h by (auto simp: dropWhile_append3)
  then show ?thesis by (simp add: blob_name_of_def after_first_slash_def)
qed

lemma strip_core:
  assumes "list_all isspace ws1" "list_all isspace ws2" "x \<noteq> []"
    "\<not> isspace (hd x)" "\<not> isspace (last x)"
  shows "strip (ws1 @ x @ ws2) = x"
proof -
  obtain y ys where x: "x = y # ys" using assms(3) by (cases x) auto
  have "dropWhile isspace (ws1 @ x @ ws2) = x @ ws2"
    using assms(1,4) x by (simp add: dropWhile_append3 list_all_iff)
  moreover have "rev (dropWhile isspace (rev (x @ ws2))) = x"
  proof -
    obtain z zs where r: "rev x = z # zs" using assms(3) by (cases "rev x") auto
    then have "z = last x" by (metis assms(3) hd_rev list.sel(1))
    then have "\<not> isspace z" using assms(5) by simp
    then have "dropWhile isspace (rev ws2 @ z # zs) = z # zs"
      using assms(2) by (simp add: dropWhile_append3 list_all_iff)
    then have "dropWhile isspace (rev (x @ ws2)) = rev x" using r by simp
    then show ?thesis by simp
  qed
  ultimately show ?thesis by (simp add: strip_def rstrip_space_def)
qed

lemma rstrip_replicate:
  assumes "x \<noteq> []" "last x \<noteq> ch"
  shows "rstrip (x @ replicate n ch) ch = x"
proof -
  obtain z zs where r: "rev x = z # zs" using assms(1) by (cases "rev x") auto
  then have "z = last x" by (metis assms(1) hd_rev list.sel(1))
  then have "z \<noteq> ch" using assms(2) by simp
  then have "dropWhile (\<lambda>c. c = ch) (replicate n ch @ z # zs) = z # zs"
    by (simp add: dropWhile_append3)
  then have "dropWhile (\<lambda>c. c = ch) (rev (x @ replicate n ch)) = rev x" using r by simp
  then show ?thesis by (simp add: rstrip_def)
qed

lemma xlsx_last:
  assumes "endswith (lower core) ''.xlsx''"
  shows "core \<noteq> [] \<and> lower_char (last core) = CHR ''x''"
proof -
  define k where "k = length (lower core) - length ''.xlsx''"
  from assms have d: "drop k (lower core) = ''.xlsx''"
    unfolding endswith_def k_def .
  then have "length (drop k (lower core)) = 5" by simp
  then have lt: "k < length (lower core)" by simp
  then have ne: "core \<noteq> []" by (auto simp: lower_def)
  from lt have "last (drop k (lower core)) = last (lower core)" by (rule last_drop)
  with d have "last (lower core) = CHR ''x''" by simp
  with ne show ?thesis by (simp add: lower_def last_map)
qed

lemma not_isspace_chars:
  "\<not> isspace (CHR 0x22)" "\<not> isspace (CHR 0x27)" "\<not> isspace (CHR ''/'')"
  by (simp_all add: isspace_def)

lemma spaces_no_slash: "list_all isspace ws \<Longrightarrow> CHR ''/'' \<notin> set ws"
  using not_isspace_chars(3) by (auto simp: list_all_iff)

lemma lower_char_fixed:
  "c \<notin> set ascii_upper \<Longrightarrow> lower_char c = c"
  by (simp add: lower_char_def ascii_upper_def ascii_lower_def)

lemma xlsx_last_plain:
  assumes "endswith (lower core) ''.xlsx''"
  shows "\<not> isspace (last core)" "last core \<noteq> CHR 0x27" "last core \<noteq> CHR 0x22"
proof -
  have l: "lower_char (last core) = CHR ''x''" using xlsx_last [OF assms] by simp
  show "\<not> isspace (last core)"
  proof
    assume "isspace (last core)"
    then have "last core \<notin> set ascii_upper" by (auto simp: isspace_def ascii_upper_def)
    then have "lower_char (last core) = last core" by (rule lower_char_fixed)
    with l \<open>isspace (last core)\<close> show False by (simp add: isspace_def)
  qed
  show "last core \<noteq> CHR 0x27"
  proof
    assume e: "last core = CHR 0x27"
    then have "lower_char (last core) = CHR 0x27"
      by (simp add: lower_char_def ascii_upper_def ascii_lower_def)
    with l show False by simp
  qed
  show "last core \<noteq> CHR 0x22"
  proof
    assume e: "last core = CHR 0x22"
    then have "lower_char (last core) = CHR 0x22"
      by (simp add: lower_char_def ascii_upper_def ascii_lower_def)
    with l show False by simp
  qed
qed

lemma filename_of_trimmed:
  assumes "CHR ''/'' \<notin> set core" "list_all isspace ws1" "list_all isspace ws2"
    "endswith (lower core) ''.xlsx''" "\<not> isspace (hd core)"
  shows "filename_of (d @ ''/'' @ ws1 @ core @ replicate m (CHR 0x22) @ replicate n (CHR 0x27) @ ws2)
         = core"
proof -
  define x where "x = core @ replicate m (CHR 0x22) @ replicate n (CHR 0x27)"
  have ne: "core \<noteq> []" using xlsx_last [OF assms(4)] by simp
  note pl = xlsx_last_plain [OF assms(4)]
  have xne: "x \<noteq> []" using ne by (simp add: x_def)
  have "CHR ''/'' \<notin> set x" using assms(1) by (simp add: x_def)
  then have "CHR ''/'' \<notin> set (ws1 @ x @ ws2)"
    using spaces_no_slash [OF assms(2)] spaces_no_slash [OF assms(3)] by simp
  then have b: "basename (d @ ''/'' @ (ws1 @ x @ ws2)) = ws1 @ x @ ws2"
    by (rule basename_append)
  have "last x \<in> {last core, CHR 0x22, CHR 0x27}"
    using ne by (cases "n = 0"; cases "m = 0") (simp_all add: x_def last_append)
  then have lastx: "\<not> isspace (last x)" using pl(1) not_isspace_chars by auto
  have "hd x = hd core" using ne by (simp add: x_def)
  then have hdx: "\<not> isspace (hd x)" using assms(5) by simp
  have s: "strip (ws1 @ x @ ws2) = x"
    using assms(2,3) xne hdx lastx by (rule strip_core)
  have "last (core @ replicate m (CHR 0x22)) \<in> {last core, CHR 0x22}"
    using ne by (cases "m = 0") (simp_all add: last_append)
  then have "last (core @ replicate m (CHR 0x22)) \<noteq> CHR 0x27" using pl(2) by auto
  then have r1: "rstrip ((core @ replicate m (CHR 0x22)) @ replicate n (CHR 0x27)) (CHR 0x27) =
      core @ replicate m (CHR 0x22)"
    using ne by (intro rstrip_replicate) simp_all
  have r2: "rstrip (core @ replicate m (CHR 0x22)) (CHR 0x22) = core"
    using ne pl(3) by (intro rstrip_replicate) simp_all
  have "filename_of (d @ ''/'' @ (ws1 @ x @ ws2)) = core"
    unfolding filename_of_def b s unfolding x_def using r1 r2 by simp
  then show ?thesis by (simp add: x_def)
qed

lemma startswith_set: "startswith s p \<Longrightarrow> set p \<subseteq> set s"
  unfolding startswith_def by (metis set_take_subset)


text \<open>
  Claim C9. Let the basename of the blob be white space, a core name ending in
  \<open>.xlsx\<close> (in any letter case) that does not start with white space or \<open>~$\<close>, any
  number of double quotes, any number of apostrophes, and white space. Then the file
  name the splitter works with is the core name, the blob passes the extension check,
  and it is processed under the core name; the source blob keeps its untrimmed name.
\<close>

theorem trailing_quotes_trimmed:
  assumes "CHR ''/'' \<notin> set container" "CHR ''/'' \<notin> set core"
    "list_all isspace ws1" "list_all isspace ws2"
    "endswith (lower core) ''.xlsx''" "\<not> isspace (hd core)" "\<not> startswith core ''~$''"
  shows "filename_of (container @ ''/'' @ ws1 @ core @ replicate m (CHR 0x22) @
           replicate n (CHR 0x27) @ ws2) = core \<and>
         split_excel env (container @ ''/'' @ ws1 @ core @ replicate m (CHR 0x22) @
           replicate n (CHR 0x27) @ ws2) =
         process_file env (ws1 @ core @ replicate m (CHR 0x22) @ replicate n (CHR 0x27) @ ws2)
           core"
proof -
  let ?b = "ws1 @ core @ replicate m (CHR 0x22) @ replicate n (CHR 0x27) @ ws2"
  have f: "filename_of (container @ ''/'' @ ?b) = core"
    using assms(2,3,4,5,6) by (rule filename_of_trimmed)
  have bn: "blob_name_of (container @ ''/'' @ ?b) = ?b"
    using assms(1) by (rule blob_name_of_append)
  have "CHR ''/'' \<notin> set ?b"
    using assms(2) spaces_no_slash [OF assms(3)] spaces_no_slash [OF assms(4)] by simp
  moreover have "CHR ''/'' \<in> set ''_archive/''" "CHR ''/'' \<in> set ''dsp_summary/''" by simp_all
  ultimately have "\<not> startswith ?b ''_archive/''" "\<not> startswith ?b ''dsp_summary/''"
    using startswith_set by blast+
  with f bn assms(5,7) show ?thesis by (simp add: split_excel_def Let_def)
qed


theorem trailing_quotes_trimmed_witness:
  "filename_of (''ingestion/ Routes_DSK4_2025-09-13.xlsx'' @ [CHR 0x22, CHR 0x27] @ '' '') =
     ''Routes_DSK4_2025-09-13.xlsx'' \<and>
   split_excel env_routes
     (''ingestion/ Routes_DSK4_2025-09-13.xlsx'' @ [CHR 0x22, CHR 0x27] @ '' '') =
     returned
       [ReadInput,
        UploadBlob ''driver_routes/2025/09/Routes_DSK4_2025-09-13__Routes.csv''
          ''driver,stops'' ''Routes'',
        StartCopy ('' Routes_DSK4_2025-09-13.xlsx'' @ [CHR 0x22, CHR 0x27] @ '' '')
          ''_archive/driver_routes/2025/09/Routes_DSK4_2025-09-13.xlsx'',
        GetBlobProperties ''_archive/driver_routes/2025/09/Routes_DSK4_2025-09-13.xlsx'',
        DeleteBlob ('' Routes_DSK4_2025-09-13.xlsx'' @ [CHR 0x22, CHR 0x27] @ '' '')]"
proof -
  have h: "CHR ''/'' \<notin> set ''ingestion''" "CHR ''/'' \<notin> set ''Routes_DSK4_2025-09-13.xlsx''"
    "list_all isspace '' ''"
    "endswith (lower ''Routes_DSK4_2025-09-13.xlsx'') ''.xlsx''"
    "\<not> isspace (hd ''Routes_DSK4_2025-09-13.xlsx'')"
    "\<not> startswith ''Routes_DSK4_2025-09-13.xlsx'' ''~$''"
    by (simp_all add: isspace_def endswith_def lower_def lower_char_def ascii_upper_def
        ascii_lower_def startswith_def)
  show ?thesis
    using trailing_quotes_trimmed [OF h(1,2,3,3,4,5,6), of 1 1 env_routes]
    by (simp add: routes_run)
qed


section \<open>The dispatcher's path filters\<close>

text \<open>
  Claim C6, as the claim states it, fails when the settings are incomplete: the owner
  and repository are checked before the filters, and the invocation raises. Here the
  suffix filter is configured and the subject fails it, yet the invocation ends with the
  configuration error.
\<close>

theorem missing_owner_counterexample:
  "PATH_ENDS config_no_owner \<noteq> [] \<and>
   \<not> endswith (subject notes_event) (PATH_ENDS config_no_owner) \<and>
   OnBlobCreatedDispatchToGitHub config_no_owner accepting_github ''2026-11-04T00:00:00''
     notes_event =
     \<lparr>dispatch_outcome = Inl ConfigurationIncomplete, http_calls = []\<rparr>"
  by (simp add: config_no_owner_def notes_event_def endswith_def
      OnBlobCreatedDispatchToGitHub_def)


text \<open>
  Claim C6, amended. For every invocation where a configured (non-empty) path prefix or
  path suffix is failed by the subject, no HTTP call is made; and when the owner, the
  repository and the token are configured and the event data can be read, the
  invocation returns normally.
\<close>

theorem filtered_notification_is_noop:
  assumes "filter_mismatch config (subject azeventgrid)"
  shows "http_calls (OnBlobCreatedDispatchToGitHub config post now azeventgrid) = [] \<and>
         (GITHUB_OWNER config \<noteq> [] \<and> GITHUB_REPO config \<noteq> [] \<and> GITHUB_PAT config \<noteq> [] \<and>
          get_json azeventgrid \<noteq> JsonRaises \<longrightarrow>
            OnBlobCreatedDispatchToGitHub config post now azeventgrid =
              \<lparr>dispatch_outcome = Inr (), http_calls = []\<rparr>)"
  using assms unfolding filter_mismatch_def OnBlobCreatedDispatchToGitHub_def Let_def
  by (cases "get_json azeventgrid") auto

theorem filtered_notification_is_noop_witness:
  "filter_mismatch config_filtered (subject notes_event) \<and>
   filter_mismatch config_filtered (subject routes_event) \<and>
   OnBlobCreatedDispatchToGitHub config_filtered accepting_github ''2026-11-04T00:00:00''
     notes_event =
     \<lparr>dispatch_outcome = Inr (), http_calls = []\<rparr> \<and>
   OnBlobCreatedDispatchToGitHub config_filtered accepting_github ''2026-11-04T00:00:00''
     routes_event =
     \<lparr>dispatch_outcome = Inr (), http_calls = []\<rparr>"
proof -
  have m1: "filter_mismatch config_filtered (subject notes_event)"
    by (simp add: filter_mismatch_def config_filtered_def notes_event_def endswith_def)
  have m2: "filter_mismatch config_filtered (subject routes_event)"
    by (simp add: filter_mismatch_def config_filtered_def routes_event_def startswith_def)
  have c: "GITHUB_OWNER config_filtered \<noteq> [] \<and> GITHUB_REPO config_filtered \<noteq> [] \<and>
      GITHUB_PAT config_filtered \<noteq> []"
    by (simp add: config_filtered_def)
  have j: "get_json notes_event \<noteq> JsonRaises" "get_json routes_event \<noteq> JsonRaises"
    by (simp_all add: notes_event_def routes_event_def)
  have r1: "OnBlobCreatedDispatchToGitHub config_filtered accepting_github ''2026-11-04T00:00:00''
     notes_event =
     \<lparr>dispatch_outcome = Inr (), http_calls = []\<rparr>"
    using filtered_notification_is_noop [OF m1, of accepting_github "''2026-11-04T00:00:00''"] c j by blast
  have r2: "OnBlobCreatedDispatchToGitHub config_filtered accepting_github ''2026-11-04T00:00:00''
     routes_event =
     \<lparr>dispatch_outcome = Inr (), http_calls = []\<rparr>"
    using filtered_notification_is_noop [OF m2, of accepting_github "''2026-11-04T00:00:00''"] c j by blast
  from m1 m2 r1 r2 show ?thesis by blast
qed


section \<open>The gate's polling loop\<close>

lemma gate_time_mono: "j \<le> k \<Longrightarrow> gate_time env j \<le> gate_time env k"
  by (induction k) (auto simp: le_Suc_eq)

lemma gate_loop_pending:
  "now - start_time env < 1000 * timeout \<Longrightarrow> pending env k \<Longrightarrow>
   gate_loop env timeout k now = gate_loop env timeout (Suc k) (now + 10000 + int (query_lag env k))"
  by (subst gate_loop.simps) (auto simp: pending_def split: sum.splits option.splits)

lemma gate_loop_loaded:
  "now - start_time env < 1000 * timeout \<Longrightarrow> fetchone env k = Inr (Some row) \<Longrightarrow>
   upper (case status row of None \<Rightarrow> [] | Some s \<Rightarrow> s) = ''LOADED'' \<Longrightarrow>
   gate_loop env timeout k now = \<lparr>exit_code = Inr 0, queries = Suc k\<rparr>"
  by (subst gate_loop.simps) simp

lemma gate_loop_failed:
  "now - start_time env < 1000 * timeout \<Longrightarrow> fetchone env k = Inr (Some row) \<Longrightarrow>
   upper (case status row of None \<Rightarrow> [] | Some s \<Rightarrow> s) \<in> {''LOAD_FAILED'', ''PARTIALLY_LOADED''} \<Longrightarrow>
   gate_loop env timeout k now = \<lparr>exit_code = Inr 2, queries = Suc k\<rparr>"
  by (subst gate_loop.simps) auto

lemma gate_loop_timeout:
  "\<not> now - start_time env < 1000 * timeout \<Longrightarrow>
   gate_loop env timeout k now = \<lparr>exit_code = Inr 3, queries = k\<rparr>"
  by (subst gate_loop.simps) simp

lemma gate_loop_skip:
  "\<forall>j<k. pending env j \<and> in_time env timeout j \<Longrightarrow>
   gate_loop env timeout 0 (start_time env) = gate_loop env timeout k (gate_time env k)"
proof (induction k)
  case 0
  then show ?case by simp
next
  case (Suc k)
  then have "gate_loop env timeout 0 (start_time env) = gate_loop env timeout k (gate_time env k)"
    by simp
  moreover have "pending env k" "gate_time env k - start_time env < 1000 * timeout"
    using Suc.prems by (simp_all add: in_time_def)
  ultimately show ?case using gate_loop_pending by simp
qed

lemma queries_ge: "k \<le> queries (gate_loop env timeout k now)"
proof (induction env timeout k now rule: gate_loop.induct)
  case (1 env timeout k now)
  show ?case
  proof (cases "now - start_time env < 1000 * timeout")
    case False
    then show ?thesis by (simp add: gate_loop_timeout)
  next
    case True
    show ?thesis
    proof (cases "pending env k")
      case p: True
      let ?now' = "now + 10000 + int (query_lag env k)"
      have "Suc k \<le> queries (gate_loop env timeout (Suc k) ?now')"
      proof (cases "fetchone env k")
        case (Inl e)
        with p show ?thesis by (simp add: pending_def)
      next
        case (Inr r)
        show ?thesis
        proof (cases r)
          case None
          with Inr True show ?thesis using "1.IH"(1) by simp
        next
          case (Some row)
          with Inr p have "upper (case status row of None \<Rightarrow> [] | Some s \<Rightarrow> s) \<noteq> ''LOADED''"
            "upper (case status row of None \<Rightarrow> [] | Some s \<Rightarrow> s)
               \<notin> {''LOAD_FAILED'', ''PARTIALLY_LOADED''}"
            by (simp_all add: pending_def)
          with Inr Some True show ?thesis using "1.IH"(2) by simp
        qed
      qed
      with True p show ?thesis by (simp add: gate_loop_pending)
    next
      case np: False
      with True show ?thesis
        by (subst gate_loop.simps) (auto simp: pending_def split: sum.splits option.splits)
    qed
  qed
qed

lemma queries_gt:
  "now - start_time env < 1000 * timeout \<Longrightarrow> Suc k \<le> queries (gate_loop env timeout k now)"
proof -
  assume t: "now - start_time env < 1000 * timeout"
  show ?thesis
  proof (cases "pending env k")
    case True
    then have "gate_loop env timeout k now =
        gate_loop env timeout (Suc k) (now + 10000 + int (query_lag env k))"
      using t by (rule gate_loop_pending [rotated])
    then show ?thesis using queries_ge [of "Suc k" env timeout] by simp
  next
    case False
    with t show ?thesis
      by (subst gate_loop.simps) (auto simp: pending_def split: sum.splits option.splits)
  qed
qed

lemma upper_lower_char: "upper_char (lower_char c) = upper_char c"
proof (cases "c \<in> set ascii_upper")
  case True
  then show ?thesis
    unfolding ascii_upper_def
    by (auto simp: upper_char_def lower_char_def ascii_upper_def ascii_lower_def)
next
  case False
  then show ?thesis by (simp add: lower_char_def ascii_upper_def ascii_lower_def)
qed

lemma upper_lower: "upper (lower s) = upper s"
  by (simp add: upper_def lower_def upper_lower_char)

lemma upper_of_lower_eq: "lower s = t \<Longrightarrow> upper s = upper t"
  using upper_lower by metis

lemma upper_literals:
  "upper ''LOADED'' = ''LOADED''" "upper ''LOAD_FAILED'' = ''LOAD_FAILED''"
  "upper ''PARTIALLY_LOADED'' = ''PARTIALLY_LOADED''"
  "upper ''loaded'' = ''LOADED''" "upper ''load_failed'' = ''LOAD_FAILED''"
  "upper ''partially_loaded'' = ''PARTIALLY_LOADED''" "upper [] = []"
  by (simp_all add: upper_def upper_char_def ascii_upper_def ascii_lower_def)

lemma main_connected:
  "connect env = Inr () \<Longrightarrow> main env args = gate_loop env (arg_timeout args) 0 (start_time env)"
  by (simp add: main_def)

lemma main_at_poll:
  "connect env = Inr () \<Longrightarrow> \<forall>j<k. pending env j \<and> in_time env (arg_timeout args) j \<Longrightarrow>
   main env args = gate_loop env (arg_timeout args) k (gate_time env k)"
  using main_connected gate_loop_skip by simp


text \<open>
  Claim C5. In a run of the gate on a connected warehouse, let the first \<open>k\<close> queries
  have left the gate polling within the timeout. If the loop test before query \<open>k\<close> is
  within the timeout and the row's status is LOADED, the gate returns 0 after that
  query; if it is LOAD_FAILED or PARTIALLY_LOADED, the gate returns 2 after that query;
  with any other status or no row, the gate sleeps ten seconds and tests the loop
  condition again, and queries again when that test is within the timeout. If the loop
  test before query \<open>k\<close> is not within the timeout, the gate returns 3 after \<open>k\<close>
  queries.
\<close>

theorem gate_result_mapping:
  assumes "connect env = Inr ()"
    and "\<forall>j<k. pending env j \<and> in_time env (arg_timeout args) j"
  shows
    "(in_time env (arg_timeout args) k \<and> fetchone env k = Inr (Some row) \<and>
      status row = Some ''LOADED'' \<longrightarrow>
        main env args = \<lparr>exit_code = Inr 0, queries = Suc k\<rparr>) \<and>
     (in_time env (arg_timeout args) k \<and> fetchone env k = Inr (Some row) \<and>
      status row \<in> {Some ''LOAD_FAILED'', Some ''PARTIALLY_LOADED''} \<longrightarrow>
        main env args = \<lparr>exit_code = Inr 2, queries = Suc k\<rparr>) \<and>
     (in_time env (arg_timeout args) k \<and> pending env k \<longrightarrow>
        gate_time env (Suc k) = gate_time env k + 10 * 1000 + int (query_lag env k) \<and>
        main env args = gate_loop env (arg_timeout args) (Suc k) (gate_time env (Suc k)) \<and>
        (in_time env (arg_timeout args) (Suc k) \<longrightarrow> Suc (Suc k) \<le> queries (main env args))) \<and>
     (\<not> in_time env (arg_timeout args) k \<longrightarrow>
        main env args = \<lparr>exit_code = Inr 3, queries = k\<rparr>)"
proof -
  let ?T = "arg_timeout args"
  have m: "main env args = gate_loop env ?T k (gate_time env k)"
    using assms by (rule main_at_poll)
  have c1: "main env args = \<lparr>exit_code = Inr 0, queries = Suc k\<rparr>"
    if "in_time env ?T k" "fetchone env k = Inr (Some row)" "status row = Some ''LOADED''"
    using that m gate_loop_loaded [of "gate_time env k" env ?T k row]
    by (simp add: in_time_def upper_literals)
  have c2: "main env args = \<lparr>exit_code = Inr 2, queries = Suc k\<rparr>"
    if "in_time env ?T k" "fetchone env k = Inr (Some row)"
      "status row \<in> {Some ''LOAD_FAILED'', Some ''PARTIALLY_LOADED''}"
    using that m gate_loop_failed [of "gate_time env k" env ?T k row]
    by (auto simp: in_time_def upper_literals)
  have c3: "main env args = gate_loop env ?T (Suc k) (gate_time env (Suc k))"
    if "in_time env ?T k" "pending env k"
    using that m gate_loop_pending [of "gate_time env k" env ?T k] by (simp add: in_time_def)
  have c3': "Suc (Suc k) \<le> queries (main env args)"
    if "in_time env ?T k" "pending env k" "in_time env ?T (Suc k)"
    using c3 [OF that(1,2)] that(3) queries_gt [of "gate_time env (Suc k)" env ?T "Suc k"]
    by (simp add: in_time_def)
  have c4: "main env args = \<lparr>exit_code = Inr 3, queries = k\<rparr>" if "\<not> in_time env ?T k"
    using that m gate_loop_timeout [of "gate_time env k" env ?T k] by (simp add: in_time_def)
  have t: "gate_time env (Suc k) = gate_time env k + 10 * 1000 + int (query_lag env k)" by simp
  from c1 c2 c3 c3' c4 t show ?thesis by blast
qed

lemma connect_example: "connect (gate_env_of f) = Inr ()"
  by (simp add: connect_def gate_env_of_def)

lemma pending_examples:
  "pending (gate_env_of polls_loaded) 0" "pending (gate_env_of polls_loaded) (Suc 0)"
  "pending (gate_env_of polls_failed) 0" "pending (gate_env_of polls_stuck) k"
  "pending (gate_env_of polls_mixed_case) 0"
  by (simp_all add: pending_def gate_env_of_def polls_loaded_def polls_failed_def polls_stuck_def
      polls_mixed_case_def row_with_def upper_def upper_char_def ascii_upper_def ascii_lower_def)

lemma in_time_examples:
  "in_time (gate_env_of f) 1800 0" "in_time (gate_env_of f) 1800 (Suc 0)"
  "in_time (gate_env_of f) 1800 (Suc (Suc 0))"
  "in_time (gate_env_of f) 25 0" "in_time (gate_env_of f) 25 (Suc 0)"
  "in_time (gate_env_of f) 25 (Suc (Suc 0))"
  "\<not> in_time (gate_env_of f) 25 (Suc (Suc (Suc 0)))"
  by (simp_all add: in_time_def gate_env_of_def)

theorem gate_result_mapping_witness:
  "main (gate_env_of polls_loaded) (gate_args_of 1800) = \<lparr>exit_code = Inr 0, queries = 3\<rparr> \<and>
   main (gate_env_of polls_failed) (gate_args_of 1800) = \<lparr>exit_code = Inr 2, queries = 2\<rparr> \<and>
   2 \<le> queries (main (gate_env_of polls_stuck) (gate_args_of 1800)) \<and>
   main (gate_env_of polls_stuck) (gate_args_of 25) = \<lparr>exit_code = Inr 3, queries = 3\<rparr>"
proof -
  have T: "arg_timeout (gate_args_of t) = t" for t by (simp add: gate_args_of_def)
  have a: "\<forall>j<2. pending (gate_env_of polls_loaded) j \<and>
      in_time (gate_env_of polls_loaded) (arg_timeout (gate_args_of 1800)) j"
    using pending_examples in_time_examples by (simp add: T less_Suc_eq numeral_2_eq_2)
  have r1: "main (gate_env_of polls_loaded) (gate_args_of 1800) =
      \<lparr>exit_code = Inr 0, queries = 3\<rparr>"
    using gate_result_mapping [OF connect_example a, of "row_with (Some ''LOADED'')"]
      in_time_examples(3) [of polls_loaded]
    by (simp add: T polls_loaded_def gate_env_of_def row_with_def numeral_2_eq_2 numeral_3_eq_3)
  have b: "\<forall>j<1. pending (gate_env_of polls_failed) j \<and>
      in_time (gate_env_of polls_failed) (arg_timeout (gate_args_of 1800)) j"
    using pending_examples in_time_examples by (simp add: T)
  have r2: "main (gate_env_of polls_failed) (gate_args_of 1800) =
      \<lparr>exit_code = Inr 2, queries = 2\<rparr>"
    using gate_result_mapping [OF connect_example b, of "row_with (Some ''PARTIALLY_LOADED'')"]
      in_time_examples(2) [of polls_failed]
    by (simp add: T polls_failed_def gate_env_of_def row_with_def numeral_2_eq_2)
  have c: "\<forall>j<0. pending (gate_env_of polls_stuck) j \<and>
      in_time (gate_env_of polls_stuck) (arg_timeout (gate_args_of 1800)) j"
    by simp
  have r3: "2 \<le> queries (main (gate_env_of polls_stuck) (gate_args_of 1800))"
  proof -
    note g = gate_result_mapping [OF connect_example c, of "row_with None", unfolded T]
    from g in_time_examples(1,2) [of polls_stuck] pending_examples(4) [of 0]
    have "Suc (Suc 0) \<le> queries (main (gate_env_of polls_stuck) (gate_args_of 1800))"
      by blast
    then show ?thesis by simp
  qed
  have d: "\<forall>j<3. pending (gate_env_of polls_stuck) j \<and>
      in_time (gate_env_of polls_stuck) (arg_timeout (gate_args_of 25)) j"
    using pending_examples in_time_examples by (simp add: T less_Suc_eq numeral_3_eq_3)
  have r4: "main (gate_env_of polls_stuck) (gate_args_of 25) =
      \<lparr>exit_code = Inr 3, queries = 3\<rparr>"
    using gate_result_mapping [OF connect_example d, of "row_with None"]
      in_time_examples(7) [of polls_stuck]
    by (simp add: T numeral_3_eq_3)
  from r1 r2 r3 r4 show ?thesis by blast
qed


text \<open>
  Claim C10. The status is compared in upper case, a null status as the empty string:
  a row whose status is \<open>loaded\<close> in any letter case gives exit code 0, one whose status
  is \<open>load_failed\<close> or \<open>partially_loaded\<close> in any letter case gives exit code 2, and a
  row with a null status raises nothing and leaves the gate polling.
\<close>

theorem gate_status_case_insensitive:
  assumes "connect env = Inr ()"
    and "\<forall>j<k. pending env j \<and> in_time env (arg_timeout args) j"
    and "in_time env (arg_timeout args) k"
    and "fetchone env k = Inr (Some row)"
  shows
    "(status row = Some s \<and> lower s = ''loaded'' \<longrightarrow>
        main env args = \<lparr>exit_code = Inr 0, queries = Suc k\<rparr>) \<and>
     (status row = Some s \<and> lower s \<in> {''load_failed'', ''partially_loaded''} \<longrightarrow>
        main env args = \<lparr>exit_code = Inr 2, queries = Suc k\<rparr>) \<and>
     (status row = None \<longrightarrow>
        pending env k \<and>
        main env args = gate_loop env (arg_timeout args) (Suc k) (gate_time env (Suc k)))"
proof -
  let ?T = "arg_timeout args"
  have m: "main env args = gate_loop env ?T k (gate_time env k)"
    using assms(1,2) by (rule main_at_poll)
  have t: "gate_time env k - start_time env < 1000 * ?T"
    using assms(3) by (simp add: in_time_def)
  have c1: "main env args = \<lparr>exit_code = Inr 0, queries = Suc k\<rparr>"
    if "status row = Some s" "lower s = ''loaded''"
  proof -
    have "upper s = ''LOADED''" using upper_of_lower_eq [OF that(2)] by (simp add: upper_literals)
    then have "upper (case status row of None \<Rightarrow> [] | Some s \<Rightarrow> s) = ''LOADED''"
      using that(1) by simp
    with m t assms(4) show ?thesis using gate_loop_loaded by simp
  qed
  have c2: "main env args = \<lparr>exit_code = Inr 2, queries = Suc k\<rparr>"
    if "status row = Some s" "lower s \<in> {''load_failed'', ''partially_loaded''}"
  proof -
    have "upper s \<in> {''LOAD_FAILED'', ''PARTIALLY_LOADED''}"
      using that(2) upper_of_lower_eq [of s] by (auto simp: upper_literals)
    then have "upper (case status row of None \<Rightarrow> [] | Some s \<Rightarrow> s) \<in>
        {''LOAD_FAILED'', ''PARTIALLY_LOADED''}"
      using that(1) by simp
    with m t assms(4) show ?thesis using gate_loop_failed by simp
  qed
  have c3: "pending env k \<and>
      main env args = gate_loop env ?T (Suc k) (gate_time env (Suc k))"
    if "status row = None"
  proof -
    have p: "pending env k" using that assms(4) by (simp add: pending_def upper_literals)
    with m t show ?thesis using gate_loop_pending [of "gate_time env k" env ?T k] by simp
  qed
  from c1 c2 c3 show ?thesis by blast
qed

theorem gate_status_case_insensitive_witness:
  "lower ''Loaded'' = ''loaded'' \<and>
   main (gate_env_of polls_mixed_case) (gate_args_of 1800) = \<lparr>exit_code = Inr 0, queries = 2\<rparr> \<and>
   lower ''load_failed'' = ''load_failed'' \<and>
   main (gate_env_of polls_lower_failed) (gate_args_of 1800) =
     \<lparr>exit_code = Inr 2, queries = 1\<rparr> \<and>
   pending (gate_env_of polls_mixed_case) 0"
proof -
  have T: "arg_timeout (gate_args_of t) = t" for t by (simp add: gate_args_of_def)
  have l1: "lower ''Loaded'' = ''loaded''"
    by (simp add: lower_def lower_char_def ascii_upper_def ascii_lower_def)
  have l2: "lower ''load_failed'' = ''load_failed''"
    by (simp add: lower_def lower_char_def ascii_upper_def ascii_lower_def)
  have a: "\<forall>j<1. pending (gate_env_of polls_mixed_case) j \<and>
      in_time (gate_env_of polls_mixed_case) (arg_timeout (gate_args_of 1800)) j"
    using pending_examples in_time_examples by (simp add: T)
  have f1: "fetchone (gate_env_of polls_mixed_case) 1 = Inr (Some (row_with (Some ''Loaded'')))"
    by (simp add: gate_env_of_def polls_mixed_case_def)
  have i1: "in_time (gate_env_of polls_mixed_case) (arg_timeout (gate_args_of 1800)) 1"
    using in_time_examples(2) by (simp add: T)
  have r1: "main (gate_env_of polls_mixed_case) (gate_args_of 1800) =
      \<lparr>exit_code = Inr 0, queries = 2\<rparr>"
    using gate_status_case_insensitive [OF connect_example a i1 f1, of "''Loaded''"] l1
    by (simp add: row_with_def numeral_2_eq_2)
  have b: "\<forall>j<0. pending (gate_env_of polls_lower_failed) j \<and>
      in_time (gate_env_of polls_lower_failed) (arg_timeout (gate_args_of 1800)) j"
    by simp
  have f2: "fetchone (gate_env_of polls_lower_failed) 0 =
      Inr (Some (row_with (Some ''load_failed'')))"
    by (simp add: gate_env_of_def polls_lower_failed_def)
  have i2: "in_time (gate_env_of polls_lower_failed) (arg_timeout (gate_args_of 1800)) 0"
    using in_time_examples(1) by (simp add: T)
  have r2: "main (gate_env_of polls_lower_failed) (gate_args_of 1800) =
      \<lparr>exit_code = Inr 2, queries = 1\<rparr>"
    using gate_status_case_insensitive [OF connect_example b i2 f2, of "''load_failed''"] l2
    by (simp add: row_with_def)
  have f3: "fetchone (gate_env_of polls_mixed_case) 0 = Inr (Some (row_with None))"
    by (simp add: gate_env_of_def polls_mixed_case_def)
  have c: "\<forall>j<0. pending (gate_env_of polls_mixed_case) j \<and>
      in_time (gate_env_of polls_mixed_case) (arg_timeout (gate_args_of 1800)) j"
    by simp
  have i3: "in_time (gate_env_of polls_mixed_case) (arg_timeout (gate_args_of 1800)) 0"
    using in_time_examples(1) by (simp add: T)
  have r3: "pending (gate_env_of polls_mixed_case) 0"
    using gate_status_case_insensitive [OF connect_example c i3 f3, of "[]"]
    by (simp add: row_with_def)
  from l1 r1 l2 r2 r3 show ?thesis by blast
qed


end
